theory Spec2Isabelle
  imports Complex_Main "HOL-Library.Product_Lexorder" "HOL-Library.Multiset"
begin

section \<open>Python values used by \<^verbatim>\<open>stream.py\<close>\<close>

text \<open>
  Offsets and quarter lengths are beat positions; they are modelled as rationals.
  Python's built-in \<^verbatim>\<open>cmp(a, b)\<close> returns a negative number, zero or a positive number,
  and \<^verbatim>\<open>a or b\<close> on numbers returns \<^verbatim>\<open>a\<close> unless it is zero.
\<close>

definition cmp :: "'a::linorder \<Rightarrow> 'a \<Rightarrow> int" where
  "cmp a b = (if a < b then - 1 else if a = b then 0 else 1)"

definition py_or :: "int \<Rightarrow> int \<Rightarrow> int" where
  "py_or a b = (if a \<noteq> 0 then a else b)"

text \<open>
  \<^verbatim>\<open>list.sort(cmp=c)\<close> is a stable sort: the result is ordered by the comparator and
  elements that compare equal keep their order. It is modelled as a stable insertion
  sort over the comparator.
\<close>

fun insort_cmp :: "('a \<Rightarrow> 'a \<Rightarrow> int) \<Rightarrow> 'a \<Rightarrow> 'a list \<Rightarrow> 'a list" where
  "insort_cmp c x [] = [x]"
| "insort_cmp c x (y # ys) = (if c x y \<le> 0 then x # y # ys else y # insort_cmp c x ys)"

definition list_sort :: "('a \<Rightarrow> 'a \<Rightarrow> int) \<Rightarrow> 'a list \<Rightarrow> 'a list" where
  "list_sort c xs = foldr (insort_cmp c) xs []"

section \<open>Objects, sites and the store\<close>

text \<open>
  Python objects have identity and are mutated in place, and one object may sit in
  several containers. The model keeps an explicit store: objects, list objects and
  \<^verbatim>\<open>Locations\<close> objects live at addresses, and every operation takes the store and
  returns the new one. An operation that raises returns the error together with the
  store as the exception left it.
\<close>

type_synonym ref = nat

datatype className =
  Clef | TempoMark | KeySignature | TimeSignature | Dynamic | GeneralNote
  | Note | Unpitched | Rest | Music21Object | Stream | Measure

definition CLASS_SORT_ORDER :: "className list" where
  "CLASS_SORT_ORDER = [Clef, TempoMark, KeySignature, TimeSignature, Dynamic, GeneralNote]"

datatype error =
  KeyError | IndexError | RuntimeError | ValueError | AttributeError | StreamException

text \<open>The entries of \<^verbatim>\<open>Stream._cache\<close> that the modelled methods read and write.\<close>

record cache =
  HighestTime :: "rat option"
  HighestOffset :: "rat option"
  Duration :: "rat option"

definition defHash :: cache where
  "defHash = \<lparr>HighestTime = None, HighestOffset = None, Duration = None\<rparr>"

text \<open>
  One record for every \<^verbatim>\<open>Music21Object\<close>. \<open>quarterLength\<close> is
  \<^verbatim>\<open>duration.quarterLength\<close> of an object that is not a Stream (\<open>None\<close>: the object has no
  duration, or its duration is \<^verbatim>\<open>None\<close>). The Stream attributes are \<open>elementsRef\<close> (the
  address of the list object held in \<^verbatim>\<open>_elements\<close>), \<open>unlinkedDuration\<close>, \<open>isSorted\<close>,
  \<open>isFlat\<close>, \<open>flattenedRepresentationOf\<close> and \<open>cache\<close>.
\<close>

record m21object =
  className :: className
  locations :: ref
  currentParent :: "ref option"
  priority :: int
  quarterLength :: "rat option"
  elementsRef :: ref
  unlinkedDuration :: "rat option"
  isSorted :: bool
  isFlat :: bool
  flattenedRepresentationOf :: "ref option"
  cache :: cache

record heap =
  objects :: "ref \<Rightarrow> m21object"
  pylists :: "ref \<Rightarrow> ref list"
  sites :: "ref \<Rightarrow> ref option \<Rightarrow> rat option"
  nextObj :: ref
  nextList :: ref
  nextLoc :: ref

type_synonym 'a result = "(error + 'a) \<times> heap"

definition updObj :: "ref \<Rightarrow> (m21object \<Rightarrow> m21object) \<Rightarrow> heap \<Rightarrow> heap" where
  "updObj r f h = h\<lparr>objects := (objects h)(r := f (objects h r))\<rparr>"

definition isStream :: "heap \<Rightarrow> ref \<Rightarrow> bool" where
  "isStream h x = (className (objects h x) = Stream \<or> className (objects h x) = Measure)"

definition elementsOf :: "heap \<Rightarrow> ref \<Rightarrow> ref list" where
  "elementsOf h c = pylists h (elementsRef (objects h c))"

subsection \<open>The site registry\<close>

text \<open>
  Modelled from the spec: the classes \<^verbatim>\<open>Music21Object\<close> and \<^verbatim>\<open>Locations\<close> (the module
  \<^verbatim>\<open>music21/base.py\<close>) are missing from the sources. By the spec an object holds a set of
  sites, a map from container identity to the offset it has there, with a distinguished
  "no container" site for its native offset; \<^verbatim>\<open>locations.add(offset, site)\<close> registers
  the site.
\<close>

definition locations_add :: "rat \<Rightarrow> ref option \<Rightarrow> ref \<Rightarrow> heap \<Rightarrow> heap" where
  "locations_add offset site x h =
     h\<lparr>sites := (sites h)(locations (objects h x) :=
            (sites h (locations (objects h x)))(site \<mapsto> offset))\<rparr>"

text \<open>
  Modelled from the spec: \<^verbatim>\<open>getOffsetBySite(site)\<close> of the missing base class; it fails
  with a lookup error if no such site exists.
\<close>

definition getOffsetBySite :: "ref \<Rightarrow> ref option \<Rightarrow> heap \<Rightarrow> error + rat" where
  "getOffsetBySite x site h =
     (case sites h (locations (objects h x)) site of
        None \<Rightarrow> Inl KeyError
      | Some v \<Rightarrow> Inr v)"

text \<open>
  Modelled from the spec: the attribute \<^verbatim>\<open>parent\<close> of the missing base class, the
  immediate container of the object, and the property \<^verbatim>\<open>offset\<close>, the position of the
  object relative to its immediate container.
\<close>

definition setParent :: "ref \<Rightarrow> ref option \<Rightarrow> heap \<Rightarrow> heap" where
  "setParent x p h = updObj x (\<lambda>ob. ob\<lparr>currentParent := p\<rparr>) h"

definition getOffset :: "ref \<Rightarrow> heap \<Rightarrow> error + rat" where
  "getOffset x h = getOffsetBySite x (currentParent (objects h x)) h"

subsection \<open>Creating objects\<close>

text \<open>
  Modelled from the spec: \<^verbatim>\<open>Music21Object.__init__\<close> of the missing base class. A new
  object has its own \<^verbatim>\<open>Locations\<close> with the native offset 0 at the "no container" site,
  no parent and priority 0.
\<close>

definition Music21Object_init :: "className \<Rightarrow> rat option \<Rightarrow> heap \<Rightarrow> ref \<times> heap" where
  "Music21Object_init cl ql h =
     (nextObj h,
      h\<lparr>objects := (objects h)(nextObj h :=
            \<lparr>className = cl, locations = nextLoc h, currentParent = None, priority = 0,
             quarterLength = ql, elementsRef = nextList h, unlinkedDuration = None,
             isSorted = True, isFlat = True, flattenedRepresentationOf = None,
             cache = defHash\<rparr>),
        pylists := (pylists h)(nextList h := []),
        sites := (sites h)(nextLoc h := [None \<mapsto> 0]),
        nextObj := Suc (nextObj h), nextList := Suc (nextList h),
        nextLoc := Suc (nextLoc h)\<rparr>)"

text \<open>\<^verbatim>\<open>Stream.__init__\<close>: no elements, no unlinked duration, sorted, flat, empty cache.\<close>

definition Stream_init :: "heap \<Rightarrow> ref \<times> heap" where
  "Stream_init h = Music21Object_init Stream None h"

text \<open>
  \<^verbatim>\<open>copy.copy(self)\<close> on a Stream: a new object with the same attribute values, so the
  copy holds the same list object, the same \<^verbatim>\<open>Locations\<close> object and the same parent
  as the original.
\<close>

definition copy_copy :: "ref \<Rightarrow> heap \<Rightarrow> ref \<times> heap" where
  "copy_copy x h =
     (nextObj h,
      h\<lparr>objects := (objects h)(nextObj h := objects h x), nextObj := Suc (nextObj h)\<rparr>)"

definition emptyHeap :: heap where
  "emptyHeap =
     \<lparr>objects = (\<lambda>_. \<lparr>className = Music21Object, locations = 0, currentParent = None,
          priority = 0, quarterLength = None, elementsRef = 0, unlinkedDuration = None,
          isSorted = True, isFlat = True, flattenedRepresentationOf = None,
          cache = defHash\<rparr>),
      pylists = (\<lambda>_. []), sites = (\<lambda>_. Map.empty),
      nextObj = 0, nextList = 0, nextLoc = 0\<rparr>"

section \<open>The container core\<close>

subsection \<open>Durations and the cached aggregates\<close>

text \<open>
  Modelled from the spec: the class \<^verbatim>\<open>Duration\<close> (\<^verbatim>\<open>music21/duration.py\<close>) is missing
  from the sources; a \<^verbatim>\<open>Duration()\<close> made without arguments is taken to have length 0
  (the spec treats an undefined duration as 0-length).
\<close>

definition blankQuarterLength :: rat where
  "blankQuarterLength = 0"

text \<open>
  Reading \<^verbatim>\<open>x.duration\<close>. For a Stream this is the property \<^verbatim>\<open>Stream._getDuration\<close>: the
  unlinked duration if set, else the cached \<^verbatim>\<open>Duration\<close>, else a new \<^verbatim>\<open>Duration\<close> that
  is stored in the cache and then given the stream's \<^verbatim>\<open>highestTime\<close>. The argument \<open>ht\<close>
  is the \<^verbatim>\<open>highestTime\<close> property one level of recursion further down. The result is
  the quarter length of the duration, \<open>None\<close> when the object has no duration.
\<close>

definition setCacheDuration :: "ref \<Rightarrow> rat \<Rightarrow> heap \<Rightarrow> heap" where
  "setCacheDuration self v h =
     updObj self (\<lambda>ob. ob\<lparr>cache := (cache ob)\<lparr>Duration := Some v\<rparr>\<rparr>) h"

definition getDuration ::
  "(ref \<Rightarrow> heap \<Rightarrow> rat result) \<Rightarrow> ref \<Rightarrow> heap \<Rightarrow> rat option result" where
  "getDuration ht x h =
     (if isStream h x then
        (case unlinkedDuration (objects h x) of
           Some q \<Rightarrow> (Inr (Some q), h)
         | None \<Rightarrow>
            (case Duration (cache (objects h x)) of
               Some q \<Rightarrow> (Inr (Some q), h)
             | None \<Rightarrow>
                (case ht x (setCacheDuration x blankQuarterLength h) of
                   (Inl e, h2) \<Rightarrow> (Inl e, h2)
                 | (Inr t, h2) \<Rightarrow> (Inr (Some t), setCacheDuration x t h2))))
      else (Inr (quarterLength (objects h x)), h))"

text \<open>
  The end time of one element of \<open>self\<close>, as both branches of \<^verbatim>\<open>_getHighestTime\<close> compute
  it: \<^verbatim>\<open>hasattr(el, "duration") and hasattr(el.duration, "quarterLength")\<close> decides
  between offset plus quarter length and the offset alone. Python 2's \<^verbatim>\<open>hasattr\<close>
  answers False when reading the attribute raises; the other reads of the property
  propagate their exception.
\<close>

definition elEndTime ::
  "(ref \<Rightarrow> heap \<Rightarrow> rat option result) \<Rightarrow> ref \<Rightarrow> ref \<Rightarrow> heap \<Rightarrow> rat result" where
  "elEndTime dur self el h =
     (case dur el h of
        (Inl _, h1) \<Rightarrow>
          (case getOffsetBySite el (Some self) h1 of
             Inl e \<Rightarrow> (Inl e, h1) | Inr off \<Rightarrow> (Inr off, h1))
      | (Inr _, h1) \<Rightarrow>
          (case dur el h1 of
             (Inl e, h2) \<Rightarrow> (Inl e, h2)
           | (Inr None, h2) \<Rightarrow>
               (case getOffsetBySite el (Some self) h2 of
                  Inl e \<Rightarrow> (Inl e, h2) | Inr off \<Rightarrow> (Inr off, h2))
           | (Inr (Some _), h2) \<Rightarrow>
               (case getOffsetBySite el (Some self) h2 of
                  Inl e \<Rightarrow> (Inl e, h2)
                | Inr off \<Rightarrow>
                   (case dur el h2 of
                      (Inl e, h3) \<Rightarrow> (Inl e, h3)
                    | (Inr None, h3) \<Rightarrow> (Inl AttributeError, h3)
                    | (Inr (Some q), h3) \<Rightarrow> (Inr (off + q), h3)))))"

text \<open>
  The loop \<^verbatim>\<open>for thisElement in self\<close> of the unsorted branch. The iterator
  (\<^verbatim>\<open>StreamIterator.next\<close>) sets the parent of each element it hands out to \<open>self\<close>.
\<close>

fun highestTime_loop ::
  "(ref \<Rightarrow> heap \<Rightarrow> rat option result) \<Rightarrow> ref \<Rightarrow> ref list \<Rightarrow> rat option \<Rightarrow> heap
     \<Rightarrow> rat option result" where
  "highestTime_loop dur self [] mx h = (Inr mx, h)"
| "highestTime_loop dur self (thisElement # rest) mx h =
     (case elEndTime dur self thisElement (setParent thisElement (Some self) h) of
        (Inl e, h1) \<Rightarrow> (Inl e, h1)
      | (Inr elEnd, h1) \<Rightarrow>
          highestTime_loop dur self rest
            (case mx of None \<Rightarrow> Some elEnd
             | Some m \<Rightarrow> if elEnd > m then Some elEnd else Some m) h1)"

definition setCacheHighestTime :: "ref \<Rightarrow> rat \<Rightarrow> heap \<Rightarrow> heap" where
  "setCacheHighestTime self v h =
     updObj self (\<lambda>ob. ob\<lparr>cache := (cache ob)\<lparr>HighestTime := Some v\<rparr>\<rparr>) h"

text \<open>\<^verbatim>\<open>Stream._getHighestTime\<close>, with \<open>dur\<close> reading the duration of an element.\<close>

definition highestTime_body ::
  "(ref \<Rightarrow> heap \<Rightarrow> rat option result) \<Rightarrow> ref \<Rightarrow> heap \<Rightarrow> rat result" where
  "highestTime_body dur self h =
     (case HighestTime (cache (objects h self)) of
        Some v \<Rightarrow> (Inr v, h)
      | None \<Rightarrow>
         if length (elementsOf h self) = 0 then (Inr 0, setCacheHighestTime self 0 h)
         else if isSorted (objects h self) then
           (case elEndTime dur self (last (elementsOf h self)) h of
              (Inl e, h1) \<Rightarrow> (Inl e, h1)
            | (Inr v, h1) \<Rightarrow> (Inr v, setCacheHighestTime self v h1))
         else
           (case highestTime_loop dur self (elementsOf h self) None h of
              (Inl e, h1) \<Rightarrow> (Inl e, h1)
            | (Inr None, h1) \<Rightarrow> (Inl AttributeError, h1)
            | (Inr (Some v), h1) \<Rightarrow> (Inr v, setCacheHighestTime self v h1)))"

text \<open>
  The property \<^verbatim>\<open>highestTime\<close>. The duration of an element that is itself a Stream
  reads that stream's \<^verbatim>\<open>highestTime\<close> in turn; the first argument bounds the depth of
  this recursion, and exceeding it is Python's "maximum recursion depth exceeded".
\<close>

primrec getHighestTime :: "nat \<Rightarrow> ref \<Rightarrow> heap \<Rightarrow> rat result" where
  "getHighestTime 0 self h = (Inl RuntimeError, h)"
| "getHighestTime (Suc depth) self h =
     highestTime_body (getDuration (getHighestTime depth)) self h"

text \<open>\<^verbatim>\<open>Stream._getHighestOffset\<close>; it reads each element's \<^verbatim>\<open>offset\<close> property.\<close>

fun highestOffset_loop :: "ref list \<Rightarrow> rat option \<Rightarrow> heap \<Rightarrow> error + rat option" where
  "highestOffset_loop [] mx h = Inr mx"
| "highestOffset_loop (thisElement # rest) mx h =
     (case getOffset thisElement h of
        Inl e \<Rightarrow> Inl e
      | Inr elEnd \<Rightarrow>
          highestOffset_loop rest
            (case mx of None \<Rightarrow> Some elEnd
             | Some m \<Rightarrow> if elEnd > m then Some elEnd else Some m) h)"

definition setCacheHighestOffset :: "ref \<Rightarrow> rat \<Rightarrow> heap \<Rightarrow> heap" where
  "setCacheHighestOffset self v h =
     updObj self (\<lambda>ob. ob\<lparr>cache := (cache ob)\<lparr>HighestOffset := Some v\<rparr>\<rparr>) h"

definition getHighestOffset :: "ref \<Rightarrow> heap \<Rightarrow> rat result" where
  "getHighestOffset self h =
     (case HighestOffset (cache (objects h self)) of
        Some v \<Rightarrow> (Inr v, h)
      | None \<Rightarrow>
         if length (elementsOf h self) = 0 then (Inr 0, setCacheHighestOffset self 0 h)
         else if isSorted (objects h self) then
           (case getOffset (last (elementsOf h self)) h of
              Inl e \<Rightarrow> (Inl e, h)
            | Inr v \<Rightarrow> (Inr v, setCacheHighestOffset self v h))
         else
           (case highestOffset_loop (elementsOf h self) None h of
              Inl e \<Rightarrow> (Inl e, h)
            | Inr None \<Rightarrow> (Inl AttributeError, h)
            | Inr (Some v) \<Rightarrow> (Inr v, setCacheHighestOffset self v h)))"

subsection \<open>Changing the element list\<close>

text \<open>\<^verbatim>\<open>Stream._elementsChanged\<close>\<close>

definition elementsChanged :: "ref \<Rightarrow> heap \<Rightarrow> heap" where
  "elementsChanged self h =
     updObj self (\<lambda>ob. ob\<lparr>isSorted := False,
        isFlat := list_all (\<lambda>thisElement. \<not> isStream h thisElement) (elementsOf h self),
        cache := defHash\<rparr>) h"

definition list_append :: "ref \<Rightarrow> ref \<Rightarrow> heap \<Rightarrow> heap" where
  "list_append l x h = h\<lparr>pylists := (pylists h)(l := pylists h l @ [x])\<rparr>"

text \<open>
  \<^verbatim>\<open>Stream.insert(offset, item)\<close> in its two-argument form, for an item that is a
  \<^verbatim>\<open>Music21Object\<close>. The first argument is the recursion depth left for reading
  \<^verbatim>\<open>self.highestTime\<close>. \<open>storeSorted\<close> is the test
  \<^verbatim>\<open>self.isSorted is True and self.highestTime <= offset\<close>, which reads
  \<^verbatim>\<open>highestTime\<close> only when \<^verbatim>\<open>isSorted\<close> is true; it is evaluated after the site of the
  item has been registered and its parent set.
\<close>

definition storeSorted :: "nat \<Rightarrow> rat \<Rightarrow> ref \<Rightarrow> heap \<Rightarrow> bool result" where
  "storeSorted depth offset self h =
     (if isSorted (objects h self)
      then (case getHighestTime depth self h of
              (Inl e, h1) \<Rightarrow> (Inl e, h1)
            | (Inr t, h1) \<Rightarrow> (Inr (t \<le> offset), h1))
      else (Inr False, h))"

definition insert :: "nat \<Rightarrow> rat \<Rightarrow> ref \<Rightarrow> ref \<Rightarrow> heap \<Rightarrow> unit result" where
  "insert depth offset item self h =
     (case storeSorted depth offset self
             (setParent item (Some self) (locations_add offset (Some self) item h)) of
        (Inl e, h1) \<Rightarrow> (Inl e, h1)
      | (Inr stored, h1) \<Rightarrow>
          (Inr (),
           updObj self (\<lambda>ob. ob\<lparr>isSorted := stored\<rparr>)
             (elementsChanged self (list_append (elementsRef (objects h1 self)) item h1))))"

text \<open>\<^verbatim>\<open>Stream._setElements\<close>: the setter of the property \<^verbatim>\<open>elements\<close>.\<close>

definition setElements :: "ref \<Rightarrow> ref \<Rightarrow> heap \<Rightarrow> heap" where
  "setElements self l h = elementsChanged self (updObj self (\<lambda>ob. ob\<lparr>elementsRef := l\<rparr>) h)"

subsection \<open>Sorting\<close>

text \<open>
  The comparator of \<^verbatim>\<open>_getSorted\<close>:
  \<^verbatim>\<open>cmp(x.getOffsetBySite(self), y.getOffsetBySite(self)) or cmp(x.priority, y.priority)\<close>.
  \<open>siteOffset\<close> is the offset that the comparator reads; the sort is only run when
  every element has a site for \<open>self\<close>.
\<close>

definition siteOffset :: "heap \<Rightarrow> ref \<Rightarrow> ref \<Rightarrow> rat" where
  "siteOffset h self x =
     (case getOffsetBySite x (Some self) h of Inr v \<Rightarrow> v | Inl _ \<Rightarrow> 0)"

definition sortCmp :: "heap \<Rightarrow> ref \<Rightarrow> ref \<Rightarrow> ref \<Rightarrow> int" where
  "sortCmp h self x y =
     py_or (cmp (siteOffset h self x) (siteOffset h self y))
           (cmp (priority (objects h x)) (priority (objects h y)))"

text \<open>
  The comparator orders the elements by the pair (offset in \<open>self\<close>, priority),
  compared lexicographically.
\<close>

definition sortKey :: "heap \<Rightarrow> ref \<Rightarrow> ref \<Rightarrow> rat \<times> int" where
  "sortKey h self x = (siteOffset h self x, priority (objects h x))"

text \<open>The loop of \<^verbatim>\<open>_getSorted\<close> that registers every element with the new stream.\<close>

fun sorted_loop :: "ref \<Rightarrow> ref \<Rightarrow> ref list \<Rightarrow> heap \<Rightarrow> unit result" where
  "sorted_loop self newStream [] h = (Inr (), h)"
| "sorted_loop self newStream (thisElement # rest) h =
     (case getOffsetBySite thisElement (Some self) h of
        Inl e \<Rightarrow> (Inl e, h)
      | Inr off \<Rightarrow>
          sorted_loop self newStream rest
            (setParent thisElement (Some newStream)
               (locations_add off (Some newStream) thisElement h)))"

text \<open>
  \<^verbatim>\<open>post.sort(cmp=...)\<close> on the list object \<open>post\<close>: the list is sorted in place.
\<close>

definition sortInPlace :: "ref \<Rightarrow> ref \<Rightarrow> heap \<Rightarrow> heap" where
  "sortInPlace post self h =
     h\<lparr>pylists := (pylists h)(post := list_sort (sortCmp h self) (pylists h post))\<rparr>"

text \<open>
  The rest of \<^verbatim>\<open>_getSorted\<close> after \<^verbatim>\<open>newStream = copy.copy(self)\<close>: the setter
  \<^verbatim>\<open>newStream.elements = post\<close>, the loop over \<open>post\<close> and the flag.
\<close>

definition sorted_finish :: "ref \<Rightarrow> ref \<Rightarrow> ref \<Rightarrow> heap \<Rightarrow> ref result" where
  "sorted_finish post self newStream h =
     (case sorted_loop self newStream (pylists h post) (setElements newStream post h) of
        (Inl e, h1) \<Rightarrow> (Inl e, h1)
      | (Inr _, h1) \<Rightarrow> (Inr newStream, updObj newStream (\<lambda>ob. ob\<lparr>isSorted := True\<rparr>) h1))"

definition sorted_post :: "ref \<Rightarrow> ref \<Rightarrow> heap \<Rightarrow> ref result" where
  "sorted_post post self h =
     (if 2 \<le> length (pylists h post)
         \<and> list_ex (\<lambda>x. getOffsetBySite x (Some self) h = Inl KeyError) (pylists h post)
      then (Inl KeyError, h)
      else (case copy_copy self (sortInPlace post self h) of
              (newStream, h1) \<Rightarrow> sorted_finish post self newStream h1))"

text \<open>
  \<^verbatim>\<open>Stream._getSorted\<close>, the property \<^verbatim>\<open>sorted\<close>. \<^verbatim>\<open>post = self.elements\<close> is the list
  object of \<open>self\<close> itself (\<^verbatim>\<open>_getElements\<close> returns \<^verbatim>\<open>self._elements\<close>), so
  \<^verbatim>\<open>post.sort\<close> sorts that list in place and the new stream is given the same list
  object. A list of two or more elements makes the comparator read the offset of every
  element; a missing site then raises in the middle of the sort (the model leaves the
  list as it was in that case).
\<close>

definition getSorted :: "ref \<Rightarrow> heap \<Rightarrow> ref result" where
  "getSorted self h = sorted_post (elementsRef (objects h self)) self h"

subsection \<open>Flattening\<close>

text \<open>\<^verbatim>\<open>newStream._elements = []\<close>: a new, empty list object.\<close>

definition newElementsList :: "ref \<Rightarrow> heap \<Rightarrow> heap" where
  "newElementsList self h =
     updObj self (\<lambda>ob. ob\<lparr>elementsRef := nextList h\<rparr>)
       (h\<lparr>pylists := (pylists h)(nextList h := []), nextList := Suc (nextList h)\<rparr>)"

text \<open>
  The inner loop \<^verbatim>\<open>for subEl in recurseStream\<close> of \<^verbatim>\<open>_getFlatOrSemiFlat\<close>; the iterator
  sets the parent of each element to \<open>recurseStream\<close>.
\<close>

fun flat_subLoop ::
  "nat \<Rightarrow> ref \<Rightarrow> ref \<Rightarrow> rat \<Rightarrow> ref list \<Rightarrow> heap \<Rightarrow> unit result" where
  "flat_subLoop depth newStream recurseStream recurseStreamOffset [] h = (Inr (), h)"
| "flat_subLoop depth newStream recurseStream recurseStreamOffset (subEl # rest) h =
     (case getOffsetBySite subEl (Some recurseStream)
             (setParent subEl (Some recurseStream) h) of
        Inl e \<Rightarrow> (Inl e, setParent subEl (Some recurseStream) h)
      | Inr oldOffset \<Rightarrow>
          (case insert depth (oldOffset + recurseStreamOffset) subEl newStream
                  (setParent subEl (Some recurseStream) h) of
             (Inl e, h2) \<Rightarrow> (Inl e, h2)
           | (Inr _, h2) \<Rightarrow>
               flat_subLoop depth newStream recurseStream recurseStreamOffset rest h2))"

text \<open>
  The loop \<^verbatim>\<open>for myEl in self.elements\<close> of \<^verbatim>\<open>_getFlatOrSemiFlat\<close>. \<open>recurse\<close> is the
  property \<^verbatim>\<open>flat\<close> (or \<^verbatim>\<open>semiFlat\<close>) of a nested stream.
\<close>

fun flat_loop ::
  "(ref \<Rightarrow> heap \<Rightarrow> ref result) \<Rightarrow> nat \<Rightarrow> bool \<Rightarrow> ref \<Rightarrow> ref \<Rightarrow> ref list \<Rightarrow> heap
     \<Rightarrow> unit result" where
  "flat_loop recurse depth retainContainers self newStream [] h = (Inr (), h)"
| "flat_loop recurse depth retainContainers self newStream (myEl # rest) h =
     (if isStream h myEl then
        (case (if retainContainers then
                 (case getOffsetBySite myEl (Some self) h of
                    Inl e \<Rightarrow> (Inl e, h)
                  | Inr off \<Rightarrow> insert depth off myEl newStream h)
               else (Inr (), h)) of
           (Inl e, h1) \<Rightarrow> (Inl e, h1)
         | (Inr _, h1) \<Rightarrow>
            (case recurse myEl h1 of
               (Inl e, h2) \<Rightarrow> (Inl e, h2)
             | (Inr recurseStream, h2) \<Rightarrow>
                (case getOffsetBySite myEl (Some self) h2 of
                   Inl e \<Rightarrow> (Inl e, h2)
                 | Inr recurseStreamOffset \<Rightarrow>
                    (case flat_subLoop depth newStream recurseStream recurseStreamOffset
                            (elementsOf h2 recurseStream) h2 of
                       (Inl e, h3) \<Rightarrow> (Inl e, h3)
                     | (Inr _, h3) \<Rightarrow>
                         flat_loop recurse depth retainContainers self newStream rest h3))))
      else
        (case getOffsetBySite myEl (Some self) h of
           Inl e \<Rightarrow> (Inl e, h)
         | Inr off \<Rightarrow>
            (case insert depth off myEl newStream h of
               (Inl e, h1) \<Rightarrow> (Inl e, h1)
             | (Inr _, h1) \<Rightarrow>
                 flat_loop recurse depth retainContainers self newStream rest h1)))"

text \<open>
  \<^verbatim>\<open>_getFlatOrSemiFlat\<close> from the loop on: the loop over \<^verbatim>\<open>self.elements\<close>, then
  \<^verbatim>\<open>isFlat\<close> and \<^verbatim>\<open>flattenedRepresentationOf\<close> of the new stream.
\<close>

definition flat_finish ::
  "(ref \<Rightarrow> heap \<Rightarrow> ref result) \<Rightarrow> nat \<Rightarrow> bool \<Rightarrow> ref \<Rightarrow> ref \<Rightarrow> heap \<Rightarrow> ref result" where
  "flat_finish recurse depth retainContainers self newStream h =
     (case flat_loop recurse depth retainContainers self newStream (elementsOf h self) h of
        (Inl e, h1) \<Rightarrow> (Inl e, h1)
      | (Inr _, h1) \<Rightarrow>
          (Inr newStream,
           updObj newStream
             (\<lambda>ob. ob\<lparr>isFlat := True, flattenedRepresentationOf := Some self\<rparr>) h1))"

text \<open>
  \<^verbatim>\<open>Stream._getFlatOrSemiFlat(retainContainers)\<close>. The first argument bounds the depth
  of the recursion into nested streams (a stream that contains itself makes Python
  exceed its recursion depth). The lists that are appended to are new list objects, so
  the list of \<open>self\<close> is not changed while the loop runs over it.
\<close>

primrec getFlatOrSemiFlat :: "nat \<Rightarrow> bool \<Rightarrow> ref \<Rightarrow> heap \<Rightarrow> ref result" where
  "getFlatOrSemiFlat 0 retainContainers self h = (Inl RuntimeError, h)"
| "getFlatOrSemiFlat (Suc depth) retainContainers self h =
     (case copy_copy self h of
        (newStream, h1) \<Rightarrow>
          flat_finish (getFlatOrSemiFlat depth retainContainers) depth retainContainers
            self newStream (elementsChanged newStream (newElementsList newStream h1)))"

text \<open>The properties \<^verbatim>\<open>flat\<close> and \<^verbatim>\<open>semiFlat\<close>.\<close>

definition getFlat :: "nat \<Rightarrow> ref \<Rightarrow> heap \<Rightarrow> ref result" where
  "getFlat depth self h = getFlatOrSemiFlat depth False self h"

definition getSemiFlat :: "nat \<Rightarrow> ref \<Rightarrow> heap \<Rightarrow> ref result" where
  "getSemiFlat depth self h = getFlatOrSemiFlat depth True self h"

section \<open>Overlap of duration spans\<close>

text \<open>
  A duration span is the pair (start, end) that \<^verbatim>\<open>_getDurSpan\<close> builds; Python compares
  such pairs lexicographically.
\<close>

type_synonym durSpan = "rat \<times> rat"

text \<open>\<^verbatim>\<open>Stream._durSpanOverlap(a, b, includeCoincidentBoundaries)\<close>\<close>

definition durSpanOverlap :: "durSpan \<Rightarrow> durSpan \<Rightarrow> bool \<Rightarrow> bool" where
  "durSpanOverlap a b includeCoincidentBoundaries =
     (let durSpans = list_sort cmp [a, b] in
      if includeCoincidentBoundaries
      then (if fst (durSpans ! 1) \<le> snd (durSpans ! 0) then True else False)
      else (if fst (durSpans ! 1) < snd (durSpans ! 0) then True else False))"

section \<open>Layering: overlaps and simultaneities\<close>

text \<open>
  \<^verbatim>\<open>Stream.__getitem__\<close> with an integer key inside the range of the list: the element
  at that index, with its parent set to the stream.
\<close>

definition getitem :: "ref \<Rightarrow> nat \<Rightarrow> heap \<Rightarrow> ref result" where
  "getitem self key h =
     (if key < length (elementsOf h self)
      then (Inr (elementsOf h self ! key),
            setParent (elementsOf h self ! key) (Some self) h)
      else (Inl IndexError, h))"

text \<open>
  \<^verbatim>\<open>Stream._getDurSpan(flatStream)\<close>: for every index the pair (offset, offset) of an
  element whose duration is \<^verbatim>\<open>None\<close>, else (offset, offset + quarter length); the offset
  is the element's \<^verbatim>\<open>offset\<close> property.
\<close>

fun getDurSpan_loop ::
  "(ref \<Rightarrow> heap \<Rightarrow> rat option result) \<Rightarrow> ref \<Rightarrow> nat list \<Rightarrow> heap \<Rightarrow> durSpan list result" where
  "getDurSpan_loop dur flatStream [] h = (Inr [], h)"
| "getDurSpan_loop dur flatStream (i # rest) h =
     (case getitem flatStream i h of
        (Inl e, h1) \<Rightarrow> (Inl e, h1)
      | (Inr element, h1) \<Rightarrow>
         (case dur element h1 of
            (Inl e, h2) \<Rightarrow> (Inl e, h2)
          | (Inr None, h2) \<Rightarrow>
             (case getOffset element h2 of
                Inl e \<Rightarrow> (Inl e, h2)
              | Inr off \<Rightarrow>
                 (case getDurSpan_loop dur flatStream rest h2 of
                    (Inl e, h3) \<Rightarrow> (Inl e, h3)
                  | (Inr post, h3) \<Rightarrow> (Inr ((off, off) # post), h3)))
          | (Inr (Some _), h2) \<Rightarrow>
             (case dur element h2 of
                (Inl e, h3) \<Rightarrow> (Inl e, h3)
              | (Inr None, h3) \<Rightarrow> (Inl AttributeError, h3)
              | (Inr (Some d), h3) \<Rightarrow>
                 (case getOffset element h3 of
                    Inl e \<Rightarrow> (Inl e, h3)
                  | Inr off \<Rightarrow>
                     (case getDurSpan_loop dur flatStream rest h3 of
                        (Inl e, h4) \<Rightarrow> (Inl e, h4)
                      | (Inr post, h4) \<Rightarrow> (Inr ((off, off + d) # post), h4))))))"

definition getDurSpan ::
  "(ref \<Rightarrow> heap \<Rightarrow> rat option result) \<Rightarrow> ref \<Rightarrow> heap \<Rightarrow> durSpan list result" where
  "getDurSpan dur flatStream h =
     getDurSpan_loop dur flatStream [0 ..< length (elementsOf h flatStream)] h"

text \<open>
  The inner loop of \<^verbatim>\<open>_findLayering\<close> for the element \<open>i\<close>: the indices \<open>j\<close> other than
  \<open>i\<close> that start at the same time, and those whose span overlaps.
\<close>

fun layering_inner :: "durSpan list \<Rightarrow> bool \<Rightarrow> nat \<Rightarrow> nat list \<Rightarrow> nat list \<times> nat list" where
  "layering_inner durSpanSorted includeCoincidentBoundaries i [] = ([], [])"
| "layering_inner durSpanSorted includeCoincidentBoundaries i (j # rest) =
     (if j = i then layering_inner durSpanSorted includeCoincidentBoundaries i rest
      else
        (case layering_inner durSpanSorted includeCoincidentBoundaries i rest of
           (simultaneity, overlap) \<Rightarrow>
             (if fst (durSpanSorted ! i) = fst (durSpanSorted ! j)
              then j # simultaneity else simultaneity,
              if durSpanOverlap (durSpanSorted ! i) (durSpanSorted ! j)
                   includeCoincidentBoundaries
              then j # overlap else overlap)))"

text \<open>
  The test \<^verbatim>\<open>not includeDurationless and flatStream[i].duration == None\<close> that makes the
  outer loop skip the element \<open>i\<close>.
\<close>

definition skipDurationless ::
  "(ref \<Rightarrow> heap \<Rightarrow> rat option result) \<Rightarrow> ref \<Rightarrow> bool \<Rightarrow> nat \<Rightarrow> heap \<Rightarrow> bool result" where
  "skipDurationless dur flatStream includeDurationless i h =
     (if \<not> includeDurationless then
        (case getitem flatStream i h of
           (Inl e, h1) \<Rightarrow> (Inl e, h1)
         | (Inr element, h1) \<Rightarrow>
            (case dur element h1 of
               (Inl e, h2) \<Rightarrow> (Inl e, h2)
             | (Inr d, h2) \<Rightarrow> (Inr (d = None), h2)))
      else (Inr False, h))"

text \<open>The outer loop of \<^verbatim>\<open>_findLayering\<close>: one pair of index lists per element.\<close>

fun findLayering_loop ::
  "(ref \<Rightarrow> heap \<Rightarrow> rat option result) \<Rightarrow> ref \<Rightarrow> durSpan list \<Rightarrow> bool \<Rightarrow> bool \<Rightarrow> nat list
     \<Rightarrow> heap \<Rightarrow> (nat list \<times> nat list) list result" where
  "findLayering_loop dur flatStream durSpanSorted includeDurationless
       includeCoincidentBoundaries [] h = (Inr [], h)"
| "findLayering_loop dur flatStream durSpanSorted includeDurationless
       includeCoincidentBoundaries (i # rest) h =
     (case skipDurationless dur flatStream includeDurationless i h of
        (Inl e, h1) \<Rightarrow> (Inl e, h1)
      | (Inr skip, h1) \<Rightarrow>
         (case findLayering_loop dur flatStream durSpanSorted includeDurationless
                 includeCoincidentBoundaries rest h1 of
            (Inl e, h2) \<Rightarrow> (Inl e, h2)
          | (Inr maps, h2) \<Rightarrow>
              (Inr ((if skip then ([], [])
                     else layering_inner durSpanSorted includeCoincidentBoundaries i
                            [0 ..< length durSpanSorted]) # maps), h2)))"

text \<open>
  \<^verbatim>\<open>_findLayering\<close> after \<^verbatim>\<open>flatStream = flatStream.sorted\<close>; the result is the pair
  (simultaneityMap, overlapMap).
\<close>

definition findLayering_sorted ::
  "(ref \<Rightarrow> heap \<Rightarrow> rat option result) \<Rightarrow> bool \<Rightarrow> bool \<Rightarrow> ref \<Rightarrow> heap
     \<Rightarrow> (nat list list \<times> nat list list) result" where
  "findLayering_sorted dur includeDurationless includeCoincidentBoundaries flatStream h =
     (case getDurSpan dur flatStream h of
        (Inl e, h1) \<Rightarrow> (Inl e, h1)
      | (Inr durSpanSorted, h1) \<Rightarrow>
         (case findLayering_loop dur flatStream durSpanSorted includeDurationless
                 includeCoincidentBoundaries [0 ..< length durSpanSorted] h1 of
            (Inl e, h2) \<Rightarrow> (Inl e, h2)
          | (Inr maps, h2) \<Rightarrow> (Inr (map fst maps, map snd maps), h2)))"

text \<open>
  \<^verbatim>\<open>Stream._findLayering(flatStream, includeDurationless, includeCoincidentBoundaries)\<close>;
  the first argument is the recursion depth left for reading durations.
\<close>

definition findLayering ::
  "nat \<Rightarrow> ref \<Rightarrow> bool \<Rightarrow> bool \<Rightarrow> heap \<Rightarrow> (nat list list \<times> nat list list) result" where
  "findLayering depth flatStream includeDurationless includeCoincidentBoundaries h =
     (case getSorted flatStream h of
        (Inl e, h1) \<Rightarrow> (Inl e, h1)
      | (Inr sortedStream, h1) \<Rightarrow>
          findLayering_sorted (getDuration (getHighestTime depth)) includeDurationless
            includeCoincidentBoundaries sortedStream h1)"

section \<open>Measures and ties\<close>

text \<open>
  \<^verbatim>\<open>makeMeasures\<close> and \<^verbatim>\<open>makeTies\<close> build new measures out of what they read from their
  source. They are modelled on that data: an element is given by its class, the
  quarter length of its duration (\<open>None\<close>: no duration) and its tie; a stream is given
  by its rows, the pairs (offset in the stream, element) in the order of its element
  list; a time signature by its identity and the quarter length of its bar duration.
  Time signatures and clefs stored in a measure carry no duration.
\<close>

datatype tie = Tie string

datatype element =
  Element (elementClass: className) (duration: "rat option") (tie: "tie option") (label: nat)

datatype timeSignature = TimeSignatureObject (tsId: nat) (barDuration: rat)

datatype clef = TrebleClef | BassClef | Treble8vbClef

text \<open>
  What a Measure holds: time signatures, clefs, other elements, and \<open>Wrapped\<close> for an
  \<^verbatim>\<open>ElementWrapper\<close> around a value that is no \<^verbatim>\<open>Music21Object\<close>.
\<close>

datatype item = TS timeSignature | CL clef | EL element | Wrapped

record measure =
  measureNumber :: nat
  contents :: "(rat \<times> item) list"

text \<open>\<^verbatim>\<open>Measure()\<close>: measure number 0 and no elements.\<close>

definition Measure_init :: measure where
  "Measure_init = \<lparr>measureNumber = 0, contents = []\<rparr>"

text \<open>
  \<^verbatim>\<open>Measure._getTimeSignature\<close>: the first time signature among the elements that sits
  at offset 0 (\<^verbatim>\<open>getElementsByClass\<close>, then \<^verbatim>\<open>getElementsByOffset(0, 0)\<close>), or \<^verbatim>\<open>None\<close>.
\<close>

fun firstTimeSignature :: "(rat \<times> item) list \<Rightarrow> timeSignature option" where
  "firstTimeSignature [] = None"
| "firstTimeSignature ((off, TS ts) # rest) =
     (if off = 0 then Some ts else firstTimeSignature rest)"
| "firstTimeSignature (_ # rest) = firstTimeSignature rest"

definition getTimeSignature :: "measure \<Rightarrow> timeSignature option" where
  "getTimeSignature m = firstTimeSignature (contents m)"

text \<open>
  \<^verbatim>\<open>Measure._setTimeSignature\<close>: an old time signature at offset 0 is removed, the new
  one is inserted at offset 0, which appends it to the element list.
\<close>

definition setTimeSignature :: "timeSignature \<Rightarrow> measure \<Rightarrow> measure" where
  "setTimeSignature tsObj m =
     (case getTimeSignature m of
        None \<Rightarrow> m\<lparr>contents := contents m @ [(0, TS tsObj)]\<rparr>
      | Some old \<Rightarrow> m\<lparr>contents := remove1 (0, TS old) (contents m) @ [(0, TS tsObj)]\<rparr>)"

text \<open>\<^verbatim>\<open>Measure._getClef\<close> and \<^verbatim>\<open>Measure._setClef\<close>, in the same way.\<close>

fun firstClef :: "(rat \<times> item) list \<Rightarrow> clef option" where
  "firstClef [] = None"
| "firstClef ((off, CL c) # rest) = (if off = 0 then Some c else firstClef rest)"
| "firstClef (_ # rest) = firstClef rest"

definition getClef :: "measure \<Rightarrow> clef option" where
  "getClef m = firstClef (contents m)"

definition setClef :: "clef \<Rightarrow> measure \<Rightarrow> measure" where
  "setClef clefObj m =
     (case getClef m of
        None \<Rightarrow> m\<lparr>contents := contents m @ [(0, CL clefObj)]\<rparr>
      | Some old \<Rightarrow> m\<lparr>contents := remove1 (0, CL old) (contents m) @ [(0, CL clefObj)]\<rparr>)"

text \<open>\<^verbatim>\<open>m.insert(offset, e)\<close> on a measure: the element is appended to the element list.\<close>

definition measure_insert :: "rat \<Rightarrow> item \<Rightarrow> measure \<Rightarrow> measure" where
  "measure_insert offset e m = m\<lparr>contents := contents m @ [(offset, e)]\<rparr>"

subsection \<open>The element at or before an offset\<close>

text \<open>
  The loop of \<^verbatim>\<open>Stream.getElementAtOrBefore(offset)\<close> that collects the candidates
  (span, element); \<open>nearestTrailSpan\<close> starts at \<open>offset\<close>.
\<close>

fun candidates_loop :: "rat \<Rightarrow> (rat \<times> 'a) list \<Rightarrow> rat \<Rightarrow> (rat \<times> 'a) list" where
  "candidates_loop offset [] nearestTrailSpan = []"
| "candidates_loop offset ((elementOffset, element) # rest) nearestTrailSpan =
     (if offset - elementOffset < 0 then candidates_loop offset rest nearestTrailSpan
      else if offset - elementOffset = 0
        then (offset - elementOffset, element)
               # candidates_loop offset rest (offset - elementOffset)
      else if offset - elementOffset \<le> nearestTrailSpan
        then (offset - elementOffset, element)
               # candidates_loop offset rest (offset - elementOffset)
      else candidates_loop offset rest nearestTrailSpan)"

text \<open>
  \<^verbatim>\<open>Stream.getElementAtOrBefore(offset)\<close> on the rows of a stream: the candidate with the
  least span, or \<^verbatim>\<open>None\<close>. Modelled from the spec: \<^verbatim>\<open>candidates.sort()\<close> compares
  candidates of equal span by the element objects themselves, whose order the sources
  do not define; by the spec ties among equal offsets go to the first one encountered.
\<close>

definition getElementAtOrBefore :: "(rat \<times> 'a) list \<Rightarrow> rat \<Rightarrow> 'a option" where
  "getElementAtOrBefore rows offset =
     (case list_sort (\<lambda>a b. cmp (fst a) (fst b)) (candidates_loop offset rows offset) of
        [] \<Rightarrow> None
      | candidate # _ \<Rightarrow> Some (snd candidate))"

subsection \<open>makeMeasures\<close>

text \<open>
  Python 2's \<^verbatim>\<open>round(x, 8)\<close>: to eight decimal places, halves away from zero.
\<close>

definition round8 :: "rat \<Rightarrow> rat" where
  "round8 x =
     (if 0 \<le> x then of_int \<lfloor>x * 100000000 + 1 / 2\<rfloor> / 100000000
      else - (of_int \<lfloor>- x * 100000000 + 1 / 2\<rfloor> / 100000000))"

text \<open>
  The list \<^verbatim>\<open>offsetMap\<close> of \<^verbatim>\<open>makeMeasures\<close>: for every element of the source its
  rounded offset, the offset plus its quarter length (0 without duration), and a
  shallow copy of the element.
\<close>

definition offsetMapOf :: "(rat \<times> element) list \<Rightarrow> (rat \<times> rat \<times> element) list" where
  "offsetMapOf srcElements =
     map (\<lambda>(off, e). (round8 off,
                       round8 off + (case duration e of None \<Rightarrow> 0 | Some dur \<Rightarrow> dur), e))
         srcElements"

text \<open>
  The loop \<^verbatim>\<open>while True\<close> of \<^verbatim>\<open>makeMeasures\<close> that creates the measures. \<open>post\<close> holds
  the measures inserted so far with their offsets. A meter stream without a time
  signature at or before the offset \<open>oStart\<close> (the variable \<^verbatim>\<open>o\<close>) makes \<^verbatim>\<open>thisTimeSignature.barDuration\<close> fail on \<^verbatim>\<open>None\<close>. The
  loop need not end (a negative bar duration), so its result is optional.
\<close>

partial_function (option) makeMeasures_loop ::
  "(rat \<times> timeSignature) list \<Rightarrow> clef \<Rightarrow> rat \<Rightarrow> rat \<Rightarrow> nat \<Rightarrow> timeSignature option
     \<Rightarrow> (rat \<times> measure) list \<Rightarrow> (error + (rat \<times> measure) list) option" where
  "makeMeasures_loop meterStream clefObj oMax oStart measureCount lastTimeSignature post =
     (case getElementAtOrBefore meterStream oStart of
        None \<Rightarrow> Some (Inl AttributeError)
      | Some thisTimeSignature \<Rightarrow>
          if barDuration thisTimeSignature = 0 then Some (Inl StreamException)
          else if oStart + barDuration thisTimeSignature \<ge> oMax
          then Some (Inr (post @ [(oStart,
                  (if measureCount = 0 then setClef clefObj else id)
                    ((if Some thisTimeSignature \<noteq> lastTimeSignature
                      then setTimeSignature thisTimeSignature else id)
                       (Measure_init\<lparr>measureNumber := measureCount + 1\<rparr>)))]))
          else makeMeasures_loop meterStream clefObj oMax
                 (oStart + barDuration thisTimeSignature) (measureCount + 1)
                 (Some thisTimeSignature)
                 (post @ [(oStart,
                  (if measureCount = 0 then setClef clefObj else id)
                    ((if Some thisTimeSignature \<noteq> lastTimeSignature
                      then setTimeSignature thisTimeSignature else id)
                       (Measure_init\<lparr>measureNumber := measureCount + 1\<rparr>)))]))"

text \<open>
  The search \<^verbatim>\<open>for i in range(len(post))\<close> for the measure of an element that starts
  at \<open>start\<close>: the index and the offset of the first measure with
  \<^verbatim>\<open>start >= mStart and start < mEnd\<close>, where \<open>mEnd\<close> adds the bar duration of the last
  time signature met in the measures so far.
\<close>

fun findMeasure ::
  "rat \<Rightarrow> (rat \<times> measure) list \<Rightarrow> timeSignature option \<Rightarrow> nat \<Rightarrow> error + nat \<times> rat" where
  "findMeasure start [] lastTimeSignature i = Inl StreamException"
| "findMeasure start ((mStart, m) # rest) lastTimeSignature i =
     (case (case getTimeSignature m of
              Some ts \<Rightarrow> Some ts | None \<Rightarrow> lastTimeSignature) of
        None \<Rightarrow> Inl AttributeError
      | Some ts \<Rightarrow>
          if start \<ge> mStart \<and> start < mStart + barDuration ts then Inr (i, mStart)
          else findMeasure start rest (Some ts) (Suc i))"

text \<open>
  The loop \<^verbatim>\<open>for start, end, e in offsetMap\<close> that inserts every element into its
  measure at the offset \<^verbatim>\<open>start - mStart\<close>.
\<close>

fun populate ::
  "(rat \<times> rat \<times> element) list \<Rightarrow> (rat \<times> measure) list \<Rightarrow> error + (rat \<times> measure) list" where
  "populate [] post = Inr post"
| "populate ((start, end, e) # rest) post =
     (case findMeasure start post None 0 of
        Inl err \<Rightarrow> Inl err
      | Inr (i, mStart) \<Rightarrow>
          populate rest
            (post[i := (fst (post ! i), measure_insert (start - mStart) (EL e) (snd (post ! i)))]))"

text \<open>\<^verbatim>\<open>oMax\<close>, raised to the highest time of \<^verbatim>\<open>refStream\<close> when that is greater.\<close>

definition oMaxOf :: "(rat \<times> rat \<times> element) list \<Rightarrow> rat option \<Rightarrow> rat" where
  "oMaxOf offsetMap refHighestTime =
     (case refHighestTime of
        None \<Rightarrow> Max (set (map (\<lambda>(start, end, e). end) offsetMap))
      | Some r \<Rightarrow>
          if r > Max (set (map (\<lambda>(start, end, e). end) offsetMap)) then r
          else Max (set (map (\<lambda>(start, end, e). end) offsetMap)))"

text \<open>
  \<^verbatim>\<open>Stream.makeMeasures(meterStream, refStream)\<close>. The source is given by its rows
  \<open>srcElements\<close> and by \<open>srcHighestTime\<close>, the value that its \<^verbatim>\<open>highestTime\<close> returns;
  \<open>meterStream\<close> holds the rows of the meter stream (the one passed in, or the one that
  \<^verbatim>\<open>getTimeSignatures\<close> collects), \<open>clefObj\<close> is the clef that \<^verbatim>\<open>bestClef\<close> returns and
  \<open>refHighestTime\<close> the highest time of \<^verbatim>\<open>refStream\<close>, if one is given. The function
  \<^verbatim>\<open>common.almostEquals\<close> is missing from the sources and is a parameter. \<^verbatim>\<open>min\<close> and
  \<^verbatim>\<open>max\<close> of an empty \<^verbatim>\<open>offsetMap\<close> raise \<^verbatim>\<open>ValueError\<close>.
\<close>

definition makeMeasures ::
  "(rat \<Rightarrow> rat \<Rightarrow> bool) \<Rightarrow> (rat \<times> timeSignature) list \<Rightarrow> clef \<Rightarrow> rat option
     \<Rightarrow> (rat \<times> element) list \<Rightarrow> rat \<Rightarrow> (error + (rat \<times> measure) list) option" where
  "makeMeasures almostEquals meterStream clefObj refHighestTime srcElements srcHighestTime =
     (if offsetMapOf srcElements = [] then Some (Inl ValueError)
      else if \<not> almostEquals (oMaxOf (offsetMapOf srcElements) None) srcHighestTime
        then Some (Inl StreamException)
      else
        (case makeMeasures_loop meterStream clefObj
                (oMaxOf (offsetMapOf srcElements) refHighestTime) 0 0 None [] of
           None \<Rightarrow> None
         | Some (Inl err) \<Rightarrow> Some (Inl err)
         | Some (Inr post) \<Rightarrow> Some (populate (offsetMapOf srcElements) post)))"

subsection \<open>makeTies\<close>

text \<open>
  \<^verbatim>\<open>makeTies\<close> changes measures in place and may insert the same new measure into the
  stream more than once, so the measures are kept in a store by identity: \<open>measureAt\<close>
  holds the Measure objects, \<open>rows\<close> the elements of the stream with their offsets
  (a measure by its identity), \<open>nextId\<close> the identity of the next new measure.
\<close>

datatype streamItem = MeasureRef nat | OtherItem

record tiesStore =
  measureAt :: "nat \<Rightarrow> measure"
  rows :: "(rat \<times> streamItem) list"
  nextId :: nat

text \<open>\<^verbatim>\<open>returnObj.getElementsByClass(Measure)\<close>: the measures of the stream, in order.\<close>

fun getMeasures_rows :: "(rat \<times> streamItem) list \<Rightarrow> (rat \<times> nat) list" where
  "getMeasures_rows [] = []"
| "getMeasures_rows ((off, MeasureRef i) # rest) = (off, i) # getMeasures_rows rest"
| "getMeasures_rows ((off, OtherItem) # rest) = getMeasures_rows rest"

definition getMeasures :: "tiesStore \<Rightarrow> (rat \<times> nat) list" where
  "getMeasures st = getMeasures_rows (rows st)"

definition setContents :: "nat \<Rightarrow> (rat \<times> item) list \<Rightarrow> tiesStore \<Rightarrow> tiesStore" where
  "setContents m c st =
     st\<lparr>measureAt := (measureAt st)(m := (measureAt st m)\<lparr>contents := c\<rparr>)\<rparr>"

text \<open>
  The body of the loop over the elements of a measure for an element \<open>e\<close> at index \<open>i\<close>
  that crosses the end of the measure: its duration is cut to \<open>mEnd - eoffset\<close>, a deep
  copy gets the rest of the duration, a Note or Unpitched gets the tie
  \<^verbatim>\<open>Tie('start')\<close>, the copy is put at the front of the elements of \<open>mNext\<close>
  (\<^verbatim>\<open>eRemain.offset = 0\<close>), and \<open>mNext\<close> is inserted into the stream if it is a new
  measure.
\<close>

definition splitElement ::
  "nat \<Rightarrow> nat \<Rightarrow> bool \<Rightarrow> rat \<Rightarrow> rat \<Rightarrow> nat \<Rightarrow> rat \<Rightarrow> element \<Rightarrow> rat \<Rightarrow> tiesStore
     \<Rightarrow> tiesStore" where
  "splitElement m mNext mNextAdd mNextOffset mEnd i eoffset e quarterLen st =
     (if mNextAdd then (\<lambda>s. s\<lparr>rows := rows s @ [(mNextOffset, MeasureRef mNext)]\<rparr>) else id)
       ((\<lambda>s. setContents mNext
               ((0, EL (Element (elementClass e) (Some (quarterLen - (mEnd - eoffset)))
                          (tie e) (label e)))
                # contents (measureAt s mNext)) s)
          (setContents m
             ((contents (measureAt st m))
                [i := (eoffset,
                       EL (Element (elementClass e) (Some (mEnd - eoffset))
                             (if elementClass e = Note \<or> elementClass e = Unpitched
                              then Some (Tie ''start'') else tie e)
                             (label e)))])
             st))"

text \<open>
  The loop \<^verbatim>\<open>for e in m\<close> of \<^verbatim>\<open>makeTies\<close>. The iterator reads the element list of \<open>m\<close>
  anew at every step, and the body may change that list when \<open>mNext\<close> is \<open>m\<close> itself,
  so the loop runs over an index and its result is optional.
\<close>

partial_function (option) makeTies_for ::
  "nat \<Rightarrow> nat \<Rightarrow> bool \<Rightarrow> rat \<Rightarrow> rat \<Rightarrow> nat \<Rightarrow> tiesStore \<Rightarrow> (error + tiesStore) option" where
  "makeTies_for m mNext mNextAdd mNextOffset mEnd i st =
     (if i \<ge> length (contents (measureAt st m)) then Some (Inr st)
      else
        (case contents (measureAt st m) ! i of
           (eoffset, EL e) \<Rightarrow>
             (case duration e of
                None \<Rightarrow> makeTies_for m mNext mNextAdd mNextOffset mEnd (i + 1) st
              | Some quarterLen \<Rightarrow>
                  if eoffset + quarterLen > mEnd then
                    (if eoffset \<ge> mEnd then Some (Inl StreamException)
                     else makeTies_for m mNext mNextAdd mNextOffset mEnd (i + 1)
                            (splitElement m mNext mNextAdd mNextOffset mEnd i eoffset e
                               quarterLen st))
                  else makeTies_for m mNext mNextAdd mNextOffset mEnd (i + 1) st)
         | (eoffset, _) \<Rightarrow> makeTies_for m mNext mNextAdd mNextOffset mEnd (i + 1) st))"

text \<open>
  The new measure that \<^verbatim>\<open>makeTies\<close> creates after the last one: its number is one more
  than that of \<open>m\<close>, and it gets a copy of the time signature \<open>ts\<close> found for its offset
  unless \<^verbatim>\<open>lastTimeSignature.ratioEqual(ts)\<close>. The method \<^verbatim>\<open>ratioEqual\<close> of the missing
  module \<^verbatim>\<open>meter\<close> is a parameter.
\<close>

definition newNextMeasure ::
  "(timeSignature \<Rightarrow> timeSignature option \<Rightarrow> bool) \<Rightarrow> timeSignature \<Rightarrow> timeSignature option
     \<Rightarrow> measure \<Rightarrow> measure" where
  "newNextMeasure ratioEqual lastTimeSignature ts m =
     (if ratioEqual lastTimeSignature ts then Measure_init
      else (case ts of
              None \<Rightarrow> measure_insert 0 Wrapped Measure_init
            | Some t \<Rightarrow> setTimeSignature t Measure_init))
       \<lparr>measureNumber := measureNumber m + 1\<rparr>"

text \<open>
  One pass of the loop \<^verbatim>\<open>while True\<close> for the measure at index \<open>mCount\<close>, once
  \<open>lastTimeSignature\<close> is known: \<open>mNext\<close> is the following measure of the stream, or a
  new measure, and the elements of the measure are run through. \<open>defaultTS\<close> is the
  default time signature of the missing module \<^verbatim>\<open>defaults\<close>.
\<close>

definition makeTies_pass ::
  "(timeSignature \<Rightarrow> timeSignature option \<Rightarrow> bool) \<Rightarrow> timeSignature
     \<Rightarrow> (rat \<times> timeSignature) list \<Rightarrow> nat \<Rightarrow> timeSignature \<Rightarrow> tiesStore
     \<Rightarrow> (error + tiesStore) option" where
  "makeTies_pass ratioEqual defaultTS meterStream mCount lastTimeSignature st =
     (if mCount + 1 < length (getMeasures st)
      then makeTies_for (snd (getMeasures st ! mCount)) (snd (getMeasures st ! (mCount + 1)))
             False 0 (barDuration lastTimeSignature) 0 st
      else makeTies_for (snd (getMeasures st ! mCount)) (nextId st) True
             (fst (getMeasures st ! mCount) + barDuration lastTimeSignature)
             (barDuration lastTimeSignature) 0
             (st\<lparr>measureAt := (measureAt st)(nextId st :=
                    newNextMeasure ratioEqual lastTimeSignature
                      (if length meterStream = 0 then Some defaultTS
                       else getElementAtOrBefore meterStream
                              (fst (getMeasures st ! mCount) + barDuration lastTimeSignature))
                      (measureAt st (snd (getMeasures st ! mCount)))),
                  nextId := Suc (nextId st)\<rparr>))"

text \<open>
  The loop \<^verbatim>\<open>while True\<close> of \<^verbatim>\<open>makeTies\<close>. Without a time signature in the measure or
  before it, \<^verbatim>\<open>lastTimeSignature.barDuration\<close> fails on \<^verbatim>\<open>None\<close>.
\<close>

partial_function (option) makeTies_loop ::
  "(timeSignature \<Rightarrow> timeSignature option \<Rightarrow> bool) \<Rightarrow> timeSignature
     \<Rightarrow> (rat \<times> timeSignature) list \<Rightarrow> nat \<Rightarrow> timeSignature option \<Rightarrow> tiesStore
     \<Rightarrow> (error + tiesStore) option" where
  "makeTies_loop ratioEqual defaultTS meterStream mCount lastTimeSignature st =
     (if mCount \<ge> length (getMeasures st) then Some (Inr st)
      else
        (case (case getTimeSignature (measureAt st (snd (getMeasures st ! mCount))) of
                 Some ts \<Rightarrow> Some ts | None \<Rightarrow> lastTimeSignature) of
           None \<Rightarrow> Some (Inl AttributeError)
         | Some ts \<Rightarrow>
            (case makeTies_pass ratioEqual defaultTS meterStream mCount ts st of
               None \<Rightarrow> None
             | Some (Inl err) \<Rightarrow> Some (Inl err)
             | Some (Inr st1) \<Rightarrow>
                 makeTies_loop ratioEqual defaultTS meterStream (mCount + 1) (Some ts) st1)))"

text \<open>
  \<^verbatim>\<open>Stream.makeTies(meterStream)\<close> on the stream \<open>st\<close>; \<open>meterStream\<close> holds the rows of
  the meter stream (the one passed in, or the one that \<^verbatim>\<open>getTimeSignatures\<close> collects).
\<close>

definition makeTies ::
  "(timeSignature \<Rightarrow> timeSignature option \<Rightarrow> bool) \<Rightarrow> timeSignature
     \<Rightarrow> (rat \<times> timeSignature) list \<Rightarrow> tiesStore \<Rightarrow> (error + tiesStore) option" where
  "makeTies ratioEqual defaultTS meterStream st =
     (if length (rows st) = 0 then Some (Inl StreamException)
      else if length (getMeasures st) = 0 then Some (Inl StreamException)
      else makeTies_loop ratioEqual defaultTS meterStream 0 None st)"

section \<open>Example stores\<close>

text \<open>
  \<open>twoNotes\<close>: a new Stream (object 0) and two notes, object 1 of quarter length 10 and
  object 2 of quarter length 1. \<open>longThenShort\<close> inserts the long note at offset 0 and then
  the short one at offset 1; \<open>shortThenLong\<close> inserts the short note at offset 1 first
  and then the long one at offset 0.
\<close>

definition twoNotes :: heap where
  "twoNotes = snd (Music21Object_init GeneralNote (Some 1)
       (snd (Music21Object_init GeneralNote (Some 10) (snd (Stream_init emptyHeap)))))"

definition longThenShort :: heap where
  "longThenShort = snd (insert 2 1 2 0 (snd (insert 2 0 1 0 twoNotes)))"

definition shortThenLong :: heap where
  "shortThenLong = snd (insert 2 0 1 0 (snd (insert 2 1 2 0 twoNotes)))"

text \<open>\<open>oneLong\<close>: the long note alone, inserted at offset 0.\<close>

definition oneLong :: heap where
  "oneLong = snd (insert 2 0 1 0 twoNotes)"

text \<open>
  \<open>noteAndClef\<close>: a new Stream (object 0), a note (object 1) of quarter length 1 and a
  clef (object 2) without duration. \<open>noteFirst\<close> inserts the note and then the clef, both
  at offset 0; \<open>clefFirst\<close> inserts the clef and then the note.
\<close>

definition noteAndClef :: heap where
  "noteAndClef = snd (Music21Object_init Clef None
       (snd (Music21Object_init GeneralNote (Some 1) (snd (Stream_init emptyHeap)))))"

definition noteFirst :: heap where
  "noteFirst = snd (insert 2 0 2 0 (snd (insert 2 0 1 0 noteAndClef)))"

definition clefFirst :: heap where
  "clefFirst = snd (insert 2 0 1 0 (snd (insert 2 0 2 0 noteAndClef)))"

text \<open>
  \<open>noteTwoClefs\<close>: a Stream (object 0) holding a note of quarter length 1 at offset 0
  (object 1), a clef without duration at offset 0 (object 2) and a clef without duration
  at offset 1/2 (object 3). \<open>noteTwoClefsFlat\<close> is the store after reading
  \<^verbatim>\<open>flat\<close> of the stream (object 4) and \<^verbatim>\<open>sorted\<close> of that (object 5), as
  \<^verbatim>\<open>getOverlaps\<close> and \<^verbatim>\<open>getSimultaneous\<close> do before they call \<^verbatim>\<open>_findLayering\<close>.
\<close>

definition noteTwoClefs :: heap where
  "noteTwoClefs =
     snd (insert 2 (1/2) 3 0 (snd (insert 2 0 2 0 (snd (insert 2 0 1 0
       (snd (Music21Object_init Clef None (snd (Music21Object_init Clef None
          (snd (Music21Object_init GeneralNote (Some 1) (snd (Stream_init emptyHeap)))))))))))))"

definition noteTwoClefsFlat :: heap where
  "noteTwoClefsFlat = snd (getSorted 4 (snd (getFlat 2 0 noteTwoClefs)))"

section \<open>Notions used in the proofs\<close>

text \<open>
  Reading a cached aggregate changes caches and parents only: \<open>sameExceptCaches h h'\<close>
  says that the two stores agree on every list, every site and every other attribute.
\<close>

definition sameFields :: "m21object \<Rightarrow> m21object \<Rightarrow> bool" where
  "sameFields a b \<longleftrightarrow>
     className b = className a \<and> locations b = locations a \<and> priority b = priority a
     \<and> quarterLength b = quarterLength a \<and> elementsRef b = elementsRef a
     \<and> unlinkedDuration b = unlinkedDuration a \<and> isSorted b = isSorted a
     \<and> isFlat b = isFlat a \<and> flattenedRepresentationOf b = flattenedRepresentationOf a"

definition sameExceptCaches :: "heap \<Rightarrow> heap \<Rightarrow> bool" where
  "sameExceptCaches h h' \<longleftrightarrow>
     pylists h' = pylists h \<and> sites h' = sites h \<and> nextObj h' = nextObj h
     \<and> nextList h' = nextList h \<and> nextLoc h' = nextLoc h
     \<and> (\<forall>r. sameFields (objects h r) (objects h' r))"

definition framed :: "(heap \<Rightarrow> 'a result) \<Rightarrow> bool" where
  "framed f \<longleftrightarrow> (\<forall>h r h'. f h = (r, h') \<longrightarrow> sameExceptCaches h h')"

text \<open>
  The measures that \<^verbatim>\<open>makeMeasures\<close> builds under one meter of bar length 4 from the
  elements \<open>es\<close> placed at the offsets 0, 1, 2, ...: \<open>bars ts clefObj es a K\<close> are the
  first \<open>K\<close> measures once the elements before index \<open>a\<close> have been inserted. Measure
  \<open>k\<close> starts at offset \<open>4 * k\<close>; the first one holds the time signature and the clef.
\<close>

definition header :: "timeSignature \<Rightarrow> clef \<Rightarrow> nat \<Rightarrow> (rat \<times> item) list" where
  "header ts clefObj k = (if k = 0 then [(0, TS ts), (0, CL clefObj)] else [])"

definition placed :: "element list \<Rightarrow> nat \<Rightarrow> nat \<Rightarrow> (rat \<times> item) list" where
  "placed es k a = map (\<lambda>i. (of_nat (i - 4 * k), EL (es ! i))) [4 * k ..< min (4 * k + 4) a]"

definition barMeasure :: "timeSignature \<Rightarrow> clef \<Rightarrow> element list \<Rightarrow> nat \<Rightarrow> nat \<Rightarrow> measure" where
  "barMeasure ts clefObj es a k =
     \<lparr>measureNumber = k + 1, contents = header ts clefObj k @ placed es k a\<rparr>"

definition bars :: "timeSignature \<Rightarrow> clef \<Rightarrow> element list \<Rightarrow> nat \<Rightarrow> nat \<Rightarrow> (rat \<times> measure) list" where
  "bars ts clefObj es a K = map (\<lambda>k. (of_nat (4 * k), barMeasure ts clefObj es a k)) [0 ..< K]"

lemma list_sort_pair:
  "list_sort cmp [a, b] = (if b < a then [b, a] else [a, b])"
  by (auto simp: list_sort_def cmp_def)

lemma durSpanOverlap_unfold:
  "durSpanOverlap a b f =
     (if b < a then (if f then fst a \<le> snd b else fst a < snd b)
      else (if f then fst b \<le> snd a else fst b < snd a))"
  by (simp add: durSpanOverlap_def list_sort_pair Let_def)

section \<open>Evaluation\<close>

text \<open>The defining equations that evaluate the store operations on a concrete store.\<close>

lemmas store_eval =
  Stream_init_def Music21Object_init_def emptyHeap_def insert_def storeSorted_def
  highestTime_body_def getDuration_def elEndTime_def setParent_def
  locations_add_def updObj_def elementsChanged_def list_append_def elementsOf_def isStream_def
  getOffsetBySite_def getOffset_def defHash_def setCacheHighestTime_def setCacheDuration_def
  getHighestOffset_def setCacheHighestOffset_def
  getSorted_def sorted_post_def sorted_finish_def sortInPlace_def copy_copy_def
  setElements_def list_sort_def sortCmp_def siteOffset_def cmp_def py_or_def
  getFlat_def newElementsList_def flat_finish_def
  getitem_def getDurSpan_def skipDurationless_def findLayering_sorted_def findLayering_def
  durSpanOverlap_unfold
  eval_nat_numeral

section \<open>Reading the cached aggregates changes caches and parents only\<close>

lemma sameExceptCaches_refl [simp]: "sameExceptCaches h h"
  by (simp add: sameExceptCaches_def sameFields_def)

lemma sameExceptCaches_trans:
  "sameExceptCaches h1 h2 \<Longrightarrow> sameExceptCaches h2 h3 \<Longrightarrow> sameExceptCaches h1 h3"
  by (simp add: sameExceptCaches_def sameFields_def)

lemma sameExceptCaches_setParent [simp]: "sameExceptCaches h (setParent x p h)"
  by (simp add: sameExceptCaches_def sameFields_def setParent_def updObj_def)

lemma sameExceptCaches_setCacheHighestTime [simp]: "sameExceptCaches h (setCacheHighestTime x v h)"
  by (simp add: sameExceptCaches_def sameFields_def setCacheHighestTime_def updObj_def)

lemma sameExceptCaches_setCacheDuration [simp]: "sameExceptCaches h (setCacheDuration x v h)"
  by (simp add: sameExceptCaches_def sameFields_def setCacheDuration_def updObj_def)

lemma sameExceptCaches_step:
  "sameExceptCaches h1 h2 \<Longrightarrow> sameExceptCaches h h1 \<Longrightarrow> sameExceptCaches h h2"
  by (rule sameExceptCaches_trans)

lemma framedD: "framed f \<Longrightarrow> f h = (r, h') \<Longrightarrow> sameExceptCaches h h'"
  by (auto simp: framed_def)

lemma getDuration_framed:
  assumes "\<And>x. framed (ht x)"
  shows "framed (getDuration ht x)"
  unfolding framed_def
proof (intro allI impI)
  fix h r h'
  assume a: "getDuration ht x h = (r, h')"
  show "sameExceptCaches h h'"
  proof (cases "isStream h x \<and> unlinkedDuration (objects h x) = None \<and> Duration (cache (objects h x)) = None")
    case False
    with a show ?thesis by (auto simp: getDuration_def split: if_splits option.splits)
  next
    case True
    obtain r2 h2 where ht: "ht x (setCacheDuration x blankQuarterLength h) = (r2, h2)"
      by (cases "ht x (setCacheDuration x blankQuarterLength h)") auto
    from framedD [OF assms ht] have s2: "sameExceptCaches h h2"
      using sameExceptCaches_setCacheDuration sameExceptCaches_trans by blast
    from a True ht show ?thesis
      using s2 sameExceptCaches_trans [OF s2 sameExceptCaches_setCacheDuration]
      by (auto simp: getDuration_def split: sum.splits)
  qed
qed

lemma sameExceptCaches_getOffsetBySite:
  "sameExceptCaches h h' \<Longrightarrow> getOffsetBySite x s h' = getOffsetBySite x s h"
  by (simp add: sameExceptCaches_def sameFields_def getOffsetBySite_def)

lemma elEndTime_framed:
  assumes "\<And>x. framed (dur x)"
  shows "framed (elEndTime dur self el)"
  unfolding framed_def
proof (intro allI impI)
  fix h r h'
  assume a: "elEndTime dur self el h = (r, h')"
  obtain r1 h1 where d1: "dur el h = (r1, h1)" by (cases "dur el h") auto
  obtain r2 h2 where d2: "dur el h1 = (r2, h2)" by (cases "dur el h1") auto
  obtain r3 h3 where d3: "dur el h2 = (r3, h3)" by (cases "dur el h2") auto
  have s1: "sameExceptCaches h h1" using framedD [OF assms d1] .
  have s2: "sameExceptCaches h h2" using framedD [OF assms d2] s1 sameExceptCaches_trans by blast
  have s3: "sameExceptCaches h h3" using framedD [OF assms d3] s2 sameExceptCaches_trans by blast
  from a d1 d2 d3 s1 s2 s3 show "sameExceptCaches h h'"
    by (auto simp: elEndTime_def split: sum.splits option.splits)
qed

lemma highestTime_loop_framed:
  assumes "\<And>x. framed (dur x)"
  shows "highestTime_loop dur self els mx h = (r, h') \<Longrightarrow> sameExceptCaches h h'"
proof (induction els arbitrary: mx h)
  case Nil
  then show ?case by simp
next
  case (Cons e els)
  obtain r1 h1 where e1: "elEndTime dur self e (setParent e (Some self) h) = (r1, h1)"
    by (cases "elEndTime dur self e (setParent e (Some self) h)") auto
  have s1: "sameExceptCaches h h1"
    using framedD [OF elEndTime_framed [OF assms] e1] sameExceptCaches_setParent sameExceptCaches_trans
    by blast
  show ?case
  proof (cases r1)
    case (Inl err)
    with Cons.prems e1 s1 show ?thesis by simp
  next
    case (Inr v)
    with Cons.prems e1 have "highestTime_loop dur self els
        (case mx of None \<Rightarrow> Some v | Some m \<Rightarrow> if v > m then Some v else Some m) h1 = (r, h')"
      by simp
    from Cons.IH [OF this] s1 show ?thesis using sameExceptCaches_trans by blast
  qed
qed

lemma highestTime_body_framed:
  assumes "\<And>x. framed (dur x)"
  shows "framed (highestTime_body dur self)"
  unfolding framed_def
proof (intro allI impI)
  fix h r h'
  assume a: "highestTime_body dur self h = (r, h')"
  obtain r1 h1 where e1: "elEndTime dur self (last (elementsOf h self)) h = (r1, h1)"
    by (cases "elEndTime dur self (last (elementsOf h self)) h") auto
  obtain r2 h2 where e2: "highestTime_loop dur self (elementsOf h self) None h = (r2, h2)"
    by (cases "highestTime_loop dur self (elementsOf h self) None h") auto
  have s1: "sameExceptCaches h h1" using framedD [OF elEndTime_framed [OF assms] e1] .
  have s2: "sameExceptCaches h h2" using highestTime_loop_framed [OF assms e2] .
  have s1': "\<And>v. sameExceptCaches h (setCacheHighestTime self v h1)"
    using s1 sameExceptCaches_setCacheHighestTime sameExceptCaches_trans by blast
  have s2': "\<And>v. sameExceptCaches h (setCacheHighestTime self v h2)"
    using s2 sameExceptCaches_setCacheHighestTime sameExceptCaches_trans by blast
  from a e1 e2 s1 s2 s1' s2' show "sameExceptCaches h h'"
    by (auto simp: highestTime_body_def split: option.splits if_splits sum.splits)
qed

lemma getHighestTime_framed: "framed (getHighestTime depth self)"
proof (induction depth arbitrary: self)
  case 0
  then show ?case by (simp add: framed_def)
next
  case (Suc depth)
  have "\<And>x. framed (getDuration (getHighestTime depth) x)"
    by (rule getDuration_framed) (rule Suc.IH)
  then show ?case by (simp add: highestTime_body_framed)
qed

lemma sameExceptCaches_elementsOf:
  "sameExceptCaches h h' \<Longrightarrow> elementsOf h' c = elementsOf h c"
  by (simp add: sameExceptCaches_def sameFields_def elementsOf_def)

lemma sameExceptCaches_isSorted:
  "sameExceptCaches h h' \<Longrightarrow> isSorted (objects h' c) = isSorted (objects h c)"
  by (simp add: sameExceptCaches_def sameFields_def)

lemma sameExceptCaches_elementsRef:
  "sameExceptCaches h h' \<Longrightarrow> elementsRef (objects h' c) = elementsRef (objects h c)"
  by (simp add: sameExceptCaches_def sameFields_def)

lemma sameExceptCaches_locations:
  "sameExceptCaches h h' \<Longrightarrow> locations (objects h' c) = locations (objects h c)"
  by (simp add: sameExceptCaches_def sameFields_def)

section \<open>The sort of \<^verbatim>\<open>_getSorted\<close> is a stable sort by offset and priority\<close>

lemma insort_cmp_insort_key:
  assumes "\<And>y. c x y \<le> 0 \<longleftrightarrow> f x \<le> f y"
  shows "insort_cmp c x ys = insort_key f x ys"
  by (induction ys) (simp_all add: assms)

lemma list_sort_sort_key:
  assumes "\<And>x y. c x y \<le> 0 \<longleftrightarrow> f x \<le> f y"
  shows "list_sort c xs = sort_key f xs"
proof -
  have "insort_cmp c = insort_key f"
    by (intro ext) (rule insort_cmp_insort_key, rule assms)
  then show ?thesis by (simp add: list_sort_def sort_key_def)
qed

lemma sortCmp_sortKey:
  "sortCmp h self x y \<le> 0 \<longleftrightarrow> sortKey h self x \<le> sortKey h self y"
  by (auto simp: sortCmp_def sortKey_def py_or_def cmp_def less_eq_prod_def)

lemma sorted_loop_pylists:
  "sorted_loop self newStream els h = (r, h') \<Longrightarrow>
     pylists h' = pylists h \<and> (\<forall>x. elementsRef (objects h' x) = elementsRef (objects h x))"
proof (induction els arbitrary: h)
  case Nil
  then show ?case by simp
next
  case (Cons e els)
  show ?case
  proof (cases "getOffsetBySite e (Some self) h")
    case (Inl err)
    with Cons.prems show ?thesis by simp
  next
    case (Inr off)
    with Cons.prems have "sorted_loop self newStream els
        (setParent e (Some newStream) (locations_add off (Some newStream) e h)) = (r, h')"
      by simp
    from Cons.IH [OF this] show ?thesis
      by (simp add: setParent_def locations_add_def updObj_def)
  qed
qed

lemma getSorted_elements:
  assumes "getSorted self h = (Inr newStream, h')"
  shows "elementsOf h' newStream = sort_key (sortKey h self) (elementsOf h self)"
proof -
  let ?post = "elementsRef (objects h self)"
  let ?h1 = "sortInPlace ?post self h"
  let ?n = "nextObj ?h1"
  let ?h2 = "snd (copy_copy self ?h1)"
  let ?h3 = "setElements ?n ?post ?h2"
  from assms have ok: "\<not> (2 \<le> length (pylists h ?post)
         \<and> list_ex (\<lambda>x. getOffsetBySite x (Some self) h = Inl KeyError) (pylists h ?post))"
    by (auto simp: getSorted_def sorted_post_def split: if_splits)
  with assms have fin: "sorted_finish ?post self ?n ?h2 = (Inr newStream, h')"
    by (simp add: getSorted_def sorted_post_def copy_copy_def)
  obtain r h4 where loop: "sorted_loop self ?n (pylists ?h2 ?post) ?h3 = (r, h4)"
    by (cases "sorted_loop self ?n (pylists ?h2 ?post) ?h3") auto
  with fin obtain u where r: "r = Inr u" and n: "newStream = ?n"
    and h': "h' = updObj ?n (\<lambda>ob. ob\<lparr>isSorted := True\<rparr>) h4"
    by (cases r) (auto simp: sorted_finish_def)
  from sorted_loop_pylists [OF loop]
  have pl: "pylists h4 = pylists ?h3" and er: "elementsRef (objects h4 ?n) = elementsRef (objects ?h3 ?n)"
    by auto
  have er3: "elementsRef (objects ?h3 ?n) = ?post"
    by (simp add: setElements_def elementsChanged_def updObj_def)
  have pl3: "pylists ?h3 ?post = list_sort (sortCmp h self) (pylists h ?post)"
    by (simp add: setElements_def elementsChanged_def updObj_def copy_copy_def sortInPlace_def)
  have "elementsOf h' newStream = list_sort (sortCmp h self) (pylists h ?post)"
    using pl er er3 pl3 by (simp add: h' n elementsOf_def updObj_def)
  also have "\<dots> = sort_key (sortKey h self) (elementsOf h self)"
    by (simp add: list_sort_sort_key [of "sortCmp h self" "sortKey h self"] sortCmp_sortKey elementsOf_def)
  finally show ?thesis .
qed

lemma sort_key_stable_sym:
  "filter (\<lambda>x. f k = f x) (sort_key f xs) = filter (\<lambda>x. f k = f x) xs"
proof -
  have e: "(\<lambda>x. f k = f x) = (\<lambda>y. f y = f k)" by (rule ext) auto
  show ?thesis unfolding e by (rule sort_key_stable)
qed

lemma sort_key_same:
  fixes f :: "'a \<Rightarrow> 'k::linorder"
  assumes m: "mset xs = mset ys"
    and eq: "\<And>x. x \<in> set xs \<Longrightarrow> g x = f x"
    and st: "\<And>x. x \<in> set xs \<Longrightarrow> filter (\<lambda>y. f y = f x) xs = filter (\<lambda>y. f y = f x) ys"
  shows "sort_key f xs = sort_key g ys"
proof -
  have sets: "set ys = set xs" using m by (metis set_mset_mset)
  have gf: "map g ys = map f ys" using eq sets by auto
  have "sort_key g ys = sort_key f ys"
  proof (rule properties_for_sort_key)
    show "mset (sort_key f ys) = mset ys" by simp
    show "sorted (map g (sort_key f ys))"
    proof -
      have eqm: "map g (sort_key f ys) = map f (sort_key f ys)"
        using eq sets by auto
      show ?thesis unfolding eqm by simp
    qed
    fix k assume "k \<in> set (sort_key f ys)"
    then have k: "k \<in> set xs" using sets by simp
    have "filter (\<lambda>x. g k = g x) (sort_key f ys) = filter (\<lambda>x. f k = f x) (sort_key f ys)"
      using eq sets k by (intro filter_cong) auto
    also have "\<dots> = filter (\<lambda>x. f k = f x) ys"
      by (rule sort_key_stable_sym)
    also have "\<dots> = filter (\<lambda>x. g k = g x) ys"
      using eq sets k by (intro filter_cong) auto
    finally show "filter (\<lambda>x. g k = g x) (sort_key f ys) = filter (\<lambda>x. g k = g x) ys" .
  qed
  moreover have "sort_key f ys = sort_key f xs"
  proof (rule properties_for_sort_key)
    show "mset (sort_key f xs) = mset ys" using m by simp
    show "sorted (map f (sort_key f xs))" by simp
    fix k assume "k \<in> set (sort_key f xs)"
    then have k: "k \<in> set xs" by simp
    have "filter (\<lambda>x. f k = f x) (sort_key f xs) = filter (\<lambda>x. f k = f x) xs"
      by (rule sort_key_stable_sym)
    also have "\<dots> = filter (\<lambda>y. f y = f k) xs" by (intro filter_cong) auto
    also have "\<dots> = filter (\<lambda>y. f y = f k) ys" by (rule st [OF k])
    also have "\<dots> = filter (\<lambda>x. f k = f x) ys" by (intro filter_cong) auto
    finally show "filter (\<lambda>x. f k = f x) (sort_key f xs) = filter (\<lambda>x. f k = f x) ys" .
  qed
  ultimately show ?thesis by simp
qed

section \<open>The measures built under one meter of bar length 4\<close>

lemma round8_of_nat [simp]: "round8 (of_nat i) = of_nat i"
proof -
  have "\<lfloor>(of_nat i :: rat) * 100000000 + 1 / 2\<rfloor> = int i * 100000000"
    by (rule floor_unique) simp_all
  then show ?thesis by (simp add: round8_def)
qed

lemma getElementAtOrBefore_single:
  "0 \<le> x \<Longrightarrow> getElementAtOrBefore [(0, ts)] x = Some ts"
  by (auto simp: getElementAtOrBefore_def list_sort_def)

lemma placed_0 [simp]: "placed es k 0 = []"
  by (simp add: placed_def)

lemma barMeasure_first:
  "barMeasure ts clefObj es 0 k =
     (if k = 0 then setClef clefObj else id)
       ((if k = 0 then setTimeSignature ts else id) (Measure_init\<lparr>measureNumber := k + 1\<rparr>))"
  by (simp add: barMeasure_def header_def Measure_init_def setClef_def setTimeSignature_def
      getClef_def getTimeSignature_def)

lemma bars_Suc: "bars ts clefObj es a (Suc K) = bars ts clefObj es a K @ [(of_nat (4 * K), barMeasure ts clefObj es a K)]"
  by (simp add: bars_def)

lemma makeMeasures_loop_bars:
  assumes bar: "barDuration ts = 4"
  shows "4 * k < N \<Longrightarrow> lastTS = (if k = 0 then None else Some ts) \<Longrightarrow>
     makeMeasures_loop [(0, ts)] clefObj (of_nat N) (of_nat (4 * k)) k lastTS (bars ts clefObj es 0 k)
       = Some (Inr (bars ts clefObj es 0 ((N + 3) div 4)))"
proof (induction "N - 4 * k" arbitrary: k lastTS rule: less_induct)
  case less
  have ge: "getElementAtOrBefore [(0, ts)] (of_nat (4 * k)) = Some ts"
    by (rule getElementAtOrBefore_single) simp
  have m: "(if k = 0 then setClef clefObj else id)
             ((if Some ts \<noteq> lastTS then setTimeSignature ts else id)
                (Measure_init\<lparr>measureNumber := k + 1\<rparr>))
           = barMeasure ts clefObj es 0 k"
    using less.prems(2) by (simp add: barMeasure_first)
  show ?case
  proof (cases "N \<le> 4 * k + 4")
    case True
    then have K: "(N + 3) div 4 = Suc k" using less.prems(1) by arith
    have c: "(of_nat (4 * k) :: rat) + 4 \<ge> of_nat N"
    proof -
      have "(of_nat N :: rat) \<le> of_nat (4 * k + 4)" using True by (simp only: of_nat_le_iff)
      then show ?thesis by simp
    qed
    show ?thesis
      apply (subst makeMeasures_loop.simps)
      apply (simp only: ge option.case bar m K bars_Suc)
      using c apply simp
      done
  next
    case False
    then have lt: "4 * Suc k < N" by arith
    have c: "\<not> (of_nat (4 * k) :: rat) + 4 \<ge> of_nat N"
    proof -
      have "(of_nat (4 * k + 4) :: rat) < of_nat N" using False by (simp only: of_nat_less_iff)
      then show ?thesis by simp
    qed
    have o: "(of_nat (4 * k) :: rat) + 4 = of_nat (4 * Suc k)" by simp
    have IH: "makeMeasures_loop [(0, ts)] clefObj (of_nat N) (of_nat (4 * Suc k)) (Suc k) (Some ts)
                (bars ts clefObj es 0 (Suc k)) = Some (Inr (bars ts clefObj es 0 ((N + 3) div 4)))"
      by (rule less.hyps) (use lt in auto)
    show ?thesis
      apply (subst makeMeasures_loop.simps)
      apply (simp only: ge option.case bar m)
      using c apply (simp only: if_False o)
      apply (simp only: bars_Suc [symmetric] IH Suc_eq_plus1 [symmetric])
      apply simp
      done
  qed
qed


lemma firstTimeSignature_placed [simp]: "firstTimeSignature (placed es k a) = None"
proof -
  have "firstTimeSignature (map (\<lambda>i. (f i, EL (g i))) xs) = None" for f g and xs :: "nat list"
    by (induction xs) simp_all
  then show ?thesis by (simp add: placed_def)
qed

lemma getTimeSignature_barMeasure:
  "getTimeSignature (barMeasure ts clefObj es a k) = (if k = 0 then Some ts else None)"
  by (simp add: getTimeSignature_def barMeasure_def header_def)

lemma findMeasure_from:
  assumes bar: "barDuration ts = 4"
    and tsm: "\<And>k. getTimeSignature (m k) = (if k = 0 then Some ts else None)"
  shows "4 * a \<le> i \<Longrightarrow> i < 4 * K \<Longrightarrow> lastTS = (if a = 0 then None else Some ts) \<Longrightarrow>
     findMeasure (of_nat i) (map (\<lambda>k. (of_nat (4 * k), m k)) [a ..< K]) lastTS a
       = Inr (i div 4, of_nat (4 * (i div 4)))"
proof (induction "K - a" arbitrary: a lastTS rule: less_induct)
  case less
  from less.prems have aK: "a < K" by arith
  then have up: "[a ..< K] = a # [Suc a ..< K]" by (rule upt_conv_Cons)
  have eff: "(case getTimeSignature (m a) of Some t \<Rightarrow> Some t | None \<Rightarrow> lastTS) = Some ts"
    using less.prems(3) by (simp add: tsm)
  have ge: "(of_nat i :: rat) \<ge> of_nat (4 * a)"
    using less.prems(1) by (simp only: of_nat_le_iff)
  show ?case
  proof (cases "i < 4 * a + 4")
    case True
    then have d: "i div 4 = a" using less.prems(1) by arith
    have "(of_nat i :: rat) < of_nat (4 * a + 4)" using True by (simp only: of_nat_less_iff)
    then have lt: "(of_nat i :: rat) < of_nat (4 * a) + 4" by simp
    show ?thesis
      unfolding up using ge lt by (simp add: eff bar d del: of_nat_mult)
  next
    case False
    then have "\<not> (of_nat i :: rat) < of_nat (4 * a + 4)" unfolding of_nat_less_iff .
    then have nlt: "\<not> (of_nat i :: rat) < of_nat (4 * a) + 4" by simp
    have IH: "findMeasure (of_nat i) (map (\<lambda>k. (of_nat (4 * k), m k)) [Suc a ..< K]) (Some ts) (Suc a)
       = Inr (i div 4, of_nat (4 * (i div 4)))"
      by (rule less.hyps) (use False aK less.prems in auto)
    show ?thesis
      unfolding up using nlt by (simp add: eff bar IH del: of_nat_mult)
  qed
qed

lemma placed_Suc:
  "placed es k (Suc a) =
     (if k = a div 4 then placed es k a @ [(of_nat (a - 4 * k), EL (es ! a))] else placed es k a)"
proof (cases "k = a div 4")
  case True
  then have b: "4 * k \<le> a" "a < 4 * k + 4" by arith+
  then have "min (4 * k + 4) (Suc a) = Suc a" "min (4 * k + 4) a = a" by arith+
  with True b show ?thesis by (simp add: placed_def)
next
  case False
  then consider "a < 4 * k" | "4 * k + 4 \<le> a" by arith
  then show ?thesis
  proof cases
    case 1
    then have "min (4 * k + 4) (Suc a) \<le> 4 * k" "min (4 * k + 4) a \<le> 4 * k"
      by arith+
    then have "[4 * k ..< min (4 * k + 4) (Suc a)] = []" "[4 * k ..< min (4 * k + 4) a] = []"
      by simp_all
    with False show ?thesis by (simp only: placed_def if_False list.map)
  next
    case 2
    then have "min (4 * k + 4) (Suc a) = 4 * k + 4" "min (4 * k + 4) a = 4 * k + 4" by arith+
    with False show ?thesis by (simp add: placed_def)
  qed
qed

lemma bars_update:
  assumes "a div 4 < K"
  shows "(bars ts clefObj es a K)[a div 4 :=
            (fst (bars ts clefObj es a K ! (a div 4)),
             measure_insert (of_nat a - of_nat (4 * (a div 4))) (EL (es ! a))
               (snd (bars ts clefObj es a K ! (a div 4))))]
         = bars ts clefObj es (Suc a) K"
proof (rule nth_equalityI)
  show "length ((bars ts clefObj es a K)[a div 4 :=
            (fst (bars ts clefObj es a K ! (a div 4)),
             measure_insert (of_nat a - of_nat (4 * (a div 4))) (EL (es ! a))
               (snd (bars ts clefObj es a K ! (a div 4))))]) = length (bars ts clefObj es (Suc a) K)"
    by (simp add: bars_def)
next
  fix k
  assume "k < length ((bars ts clefObj es a K)[a div 4 :=
            (fst (bars ts clefObj es a K ! (a div 4)),
             measure_insert (of_nat a - of_nat (4 * (a div 4))) (EL (es ! a))
               (snd (bars ts clefObj es a K ! (a div 4))))])"
  then have k: "k < K" by (simp add: bars_def)
  have sub: "(of_nat a :: rat) - of_nat (4 * (a div 4)) = of_nat (a - 4 * (a div 4))"
    by (simp add: of_nat_diff)
  show "(bars ts clefObj es a K)[a div 4 :=
            (fst (bars ts clefObj es a K ! (a div 4)),
             measure_insert (of_nat a - of_nat (4 * (a div 4))) (EL (es ! a))
               (snd (bars ts clefObj es a K ! (a div 4))))] ! k
        = bars ts clefObj es (Suc a) K ! k"
  proof (cases "k = a div 4")
    case True
    with k assms show ?thesis
      by (simp add: bars_def barMeasure_def measure_insert_def placed_Suc sub)
  next
    case False
    with k assms show ?thesis
      by (simp add: bars_def barMeasure_def placed_Suc)
  qed
qed

lemma populate_bars:
  assumes bar: "barDuration ts = 4"
  shows "a \<le> N \<Longrightarrow> N \<le> 4 * K \<Longrightarrow>
     populate (map (\<lambda>i. (of_nat i, of_nat i + 1, es ! i)) [a ..< N]) (bars ts clefObj es a K)
       = Inr (bars ts clefObj es N K)"
proof (induction "N - a" arbitrary: a rule: less_induct)
  case less
  show ?case
  proof (cases "a = N")
    case True
    then show ?thesis by simp
  next
    case False
    with less.prems have aN: "a < N" by simp
    then have up: "[a ..< N] = a # [Suc a ..< N]" by (rule upt_conv_Cons)
    have aK: "a div 4 < K" using aN less.prems(2) by arith
    have fm: "findMeasure (of_nat a) (bars ts clefObj es a K) None 0
               = Inr (a div 4, of_nat (4 * (a div 4)))"
      unfolding bars_def
      by (rule findMeasure_from [OF bar getTimeSignature_barMeasure, where a = 0])
         (use aN less.prems in auto)
    have IH: "populate (map (\<lambda>i. (of_nat i, of_nat i + 1, es ! i)) [Suc a ..< N])
                (bars ts clefObj es (Suc a) K) = Inr (bars ts clefObj es N K)"
      by (rule less.hyps) (use aN less.prems in auto)
    show ?thesis
      unfolding up
      by (simp only: list.map populate.simps fm sum.case prod.case bars_update [OF aK] IH)
  qed
qed

lemma offsetMapOf_unit:
  assumes "\<forall>e \<in> set es. duration e = Some 1"
  shows "offsetMapOf (zip (map of_nat [0 ..< length es]) es)
         = map (\<lambda>i. (of_nat i, of_nat i + 1, es ! i)) [0 ..< length es]"
proof (rule nth_equalityI)
  show "length (offsetMapOf (zip (map of_nat [0 ..< length es]) es))
        = length (map (\<lambda>i. (of_nat i, of_nat i + 1, es ! i)) [0 ..< length es])"
    by (simp add: offsetMapOf_def)
next
  fix i
  assume "i < length (offsetMapOf (zip (map of_nat [0 ..< length es]) es))"
  then have i: "i < length es" by (simp add: offsetMapOf_def)
  then have "duration (es ! i) = Some 1" using assms by simp
  with i show "offsetMapOf (zip (map of_nat [0 ..< length es]) es) ! i
        = map (\<lambda>i. (of_nat i, of_nat i + 1, es ! i)) [0 ..< length es] ! i"
    by (simp add: offsetMapOf_def)
qed

lemma oMaxOf_unit:
  assumes "0 < N"
  shows "oMaxOf (map (\<lambda>i. (of_nat i, of_nat i + 1, es ! i)) [0 ..< N]) None = of_nat N"
proof -
  have s: "set (map (\<lambda>(start, end, e). end) (map (\<lambda>i. (of_nat i, of_nat i + 1, es ! i)) [0 ..< N]))
           = (\<lambda>i. (of_nat i :: rat) + 1) ` {0 ..< N}"
    by (auto simp: image_iff)
  have "Max ((\<lambda>i. (of_nat i :: rat) + 1) ` {0 ..< N}) = of_nat N"
  proof (rule Max_eqI)
    show "finite ((\<lambda>i. (of_nat i :: rat) + 1) ` {0 ..< N})" by simp
    show "y \<le> of_nat N" if "y \<in> (\<lambda>i. (of_nat i :: rat) + 1) ` {0 ..< N}" for y
    proof -
      from that obtain i where i: "i < N" and y: "y = of_nat i + 1" by auto
      have "(of_nat (Suc i) :: rat) \<le> of_nat N" using i by (simp only: of_nat_le_iff Suc_le_eq)
      then show ?thesis using y by simp
    qed
    have "(of_nat N :: rat) = of_nat (N - 1) + 1" using assms by (simp add: of_nat_diff)
    moreover have "N - 1 \<in> {0 ..< N}" using assms by simp
    ultimately show "of_nat N \<in> (\<lambda>i. (of_nat i :: rat) + 1) ` {0 ..< N}" by blast
  qed
  then show ?thesis unfolding oMaxOf_def option.case s .
qed

lemma makeMeasures_bars:
  assumes N: "0 < length es"
    and dur: "\<forall>e \<in> set es. duration e = Some 1"
    and bar: "barDuration ts = 4"
    and ae: "almostEquals (of_nat (length es)) srcHighestTime"
  shows "makeMeasures almostEquals [(0, ts)] clefObj None
           (zip (map of_nat [0 ..< length es]) es) srcHighestTime
         = Some (Inr (bars ts clefObj es (length es) ((length es + 3) div 4)))"
proof -
  let ?N = "length es"
  let ?om = "map (\<lambda>i. (of_nat i, of_nat i + 1, es ! i)) [0 ..< ?N]"
  have om: "offsetMapOf (zip (map of_nat [0 ..< ?N]) es) = ?om"
    by (rule offsetMapOf_unit [OF dur])
  have ne: "?om \<noteq> []" using N by simp
  have mx: "oMaxOf ?om None = of_nat ?N" by (rule oMaxOf_unit [OF N])
  have loop: "makeMeasures_loop [(0, ts)] clefObj (of_nat ?N) 0 0 None []
              = Some (Inr (bars ts clefObj es 0 ((?N + 3) div 4)))"
    using makeMeasures_loop_bars [OF bar, of 0 ?N None clefObj es] N
    by (simp add: bars_def)
  have pop: "populate ?om (bars ts clefObj es 0 ((?N + 3) div 4))
             = Inr (bars ts clefObj es ?N ((?N + 3) div 4))"
    by (rule populate_bars [OF bar]) arith+
  show ?thesis
    unfolding makeMeasures_def om
    using ne ae by (simp add: mx loop pop)
qed

section \<open>Claims about the container core\<close>

text \<open>
  C1: reading \<^verbatim>\<open>highestTime\<close> returns the maximum over the elements of offset plus
  duration, whether or not \<^verbatim>\<open>isSorted\<close> is set. The code breaks this: when \<^verbatim>\<open>isSorted\<close>
  is set, \<^verbatim>\<open>_getHighestTime\<close> takes the end of the last element only. In the store
  \<open>longThenShort\<close> the stream that \<^verbatim>\<open>sorted\<close> returns (object 3) holds the note of length
  10 at offset 0 and the note of length 1 at offset 1, it is marked sorted, its cache is
  empty, and its \<^verbatim>\<open>highestTime\<close> is read as 2 although the first note ends at 10.
\<close>

theorem highestTime_sorted_last:
  "fst (getSorted 0 longThenShort) = Inr 3
   \<and> isSorted (objects (snd (getSorted 0 longThenShort)) 3)
   \<and> HighestTime (cache (objects (snd (getSorted 0 longThenShort)) 3)) = None
   \<and> elementsOf (snd (getSorted 0 longThenShort)) 3 = [1, 2]
   \<and> getOffsetBySite 1 (Some 3) (snd (getSorted 0 longThenShort)) = Inr 0
   \<and> quarterLength (objects (snd (getSorted 0 longThenShort)) 1) = Some 10
   \<and> getOffsetBySite 2 (Some 3) (snd (getSorted 0 longThenShort)) = Inr 1
   \<and> quarterLength (objects (snd (getSorted 0 longThenShort)) 2) = Some 1
   \<and> fst (getHighestTime 2 3 (snd (getSorted 0 longThenShort))) = Inr 2"
  by (simp add: longThenShort_def twoNotes_def store_eval)

text \<open>
  C2 (as stated): \<^verbatim>\<open>sorted\<close> orders by offset, class rank, priority and insertion
  index, so that the order does not depend on the order of insertion. The comparator of
  \<^verbatim>\<open>_getSorted\<close> looks at offset and priority only (\<^verbatim>\<open>CLASS_SORT_ORDER\<close> is not used),
  and the sort is stable. A note and a clef at offset 0 with the same priority come out
  in the order in which they were inserted: note before clef in \<open>noteFirst\<close>, clef before
  note in \<open>clefFirst\<close>.
\<close>

theorem sorted_order_counterexample:
  "className (objects noteFirst 1) = GeneralNote \<and> className (objects noteFirst 2) = Clef
   \<and> className (objects clefFirst 1) = GeneralNote \<and> className (objects clefFirst 2) = Clef
   \<and> mset (elementsOf noteFirst 0) = mset (elementsOf clefFirst 0)
   \<and> getOffsetBySite 1 (Some 0) noteFirst = Inr 0 \<and> getOffsetBySite 2 (Some 0) noteFirst = Inr 0
   \<and> getOffsetBySite 1 (Some 0) clefFirst = Inr 0 \<and> getOffsetBySite 2 (Some 0) clefFirst = Inr 0
   \<and> priority (objects noteFirst 1) = priority (objects noteFirst 2)
   \<and> fst (getSorted 0 noteFirst) = Inr 3 \<and> fst (getSorted 0 clefFirst) = Inr 3
   \<and> elementsOf (snd (getSorted 0 noteFirst)) 3 = [1, 2]
   \<and> elementsOf (snd (getSorted 0 clefFirst)) 3 = [2, 1]"
  by (simp add: noteFirst_def clefFirst_def noteAndClef_def store_eval)

text \<open>
  C2 (amended): the elements of the stream that \<^verbatim>\<open>sorted\<close> returns are the elements of
  the source in the order of a stable sort by (offset, priority): ordered by that key, the
  same elements, and elements with equal keys in their order in the source. Hence two
  streams with the same elements at the same offsets and priorities have the same sorted
  order whenever elements that agree in offset and priority stand in the same relative
  order in both.
\<close>

theorem getSorted_order:
  assumes "getSorted self h = (Inr newStream, h')"
  shows "elementsOf h' newStream = sort_key (sortKey h self) (elementsOf h self)
     \<and> sorted (map (sortKey h self) (elementsOf h' newStream))
     \<and> mset (elementsOf h' newStream) = mset (elementsOf h self)
     \<and> (\<forall>self2 h2 newStream2 h2'.
           getSorted self2 h2 = (Inr newStream2, h2')
           \<and> mset (elementsOf h2 self2) = mset (elementsOf h self)
           \<and> (\<forall>x \<in> set (elementsOf h self).
                 sortKey h2 self2 x = sortKey h self x
                 \<and> filter (\<lambda>y. sortKey h self y = sortKey h self x) (elementsOf h2 self2)
                   = filter (\<lambda>y. sortKey h self y = sortKey h self x) (elementsOf h self))
           \<longrightarrow> elementsOf h2' newStream2 = elementsOf h' newStream)"
proof (intro conjI allI impI)
  show 1: "elementsOf h' newStream = sort_key (sortKey h self) (elementsOf h self)"
    by (rule getSorted_elements [OF assms])
  show "sorted (map (sortKey h self) (elementsOf h' newStream))"
    unfolding 1 by simp
  show "mset (elementsOf h' newStream) = mset (elementsOf h self)"
    unfolding 1 by simp
  fix self2 h2 newStream2 h2'
  assume hyp: "getSorted self2 h2 = (Inr newStream2, h2')
           \<and> mset (elementsOf h2 self2) = mset (elementsOf h self)
           \<and> (\<forall>x \<in> set (elementsOf h self).
                 sortKey h2 self2 x = sortKey h self x
                 \<and> filter (\<lambda>y. sortKey h self y = sortKey h self x) (elementsOf h2 self2)
                   = filter (\<lambda>y. sortKey h self y = sortKey h self x) (elementsOf h self))"
  then have a: "getSorted self2 h2 = (Inr newStream2, h2')"
    and m: "mset (elementsOf h self) = mset (elementsOf h2 self2)"
    by simp_all
  from hyp have k1: "\<And>x. x \<in> set (elementsOf h self) \<Longrightarrow> sortKey h2 self2 x = sortKey h self x"
    by blast
  from hyp have k2: "\<And>x. x \<in> set (elementsOf h self) \<Longrightarrow>
      filter (\<lambda>y. sortKey h self y = sortKey h self x) (elementsOf h self)
      = filter (\<lambda>y. sortKey h self y = sortKey h self x) (elementsOf h2 self2)"
    by simp
  have "sort_key (sortKey h self) (elementsOf h self)
          = sort_key (sortKey h2 self2) (elementsOf h2 self2)"
    by (rule sort_key_same [OF m k1 k2])
  then show "elementsOf h2' newStream2 = elementsOf h' newStream"
    using getSorted_elements [OF a] 1 by simp
qed

theorem getSorted_order_witness:
  "getSorted 0 shortThenLong = (Inr 3, snd (getSorted 0 shortThenLong))
   \<and> getSorted 0 longThenShort = (Inr 3, snd (getSorted 0 longThenShort))
   \<and> elementsOf shortThenLong 0 = [2, 1] \<and> elementsOf longThenShort 0 = [1, 2]
   \<and> elementsOf (snd (getSorted 0 shortThenLong)) 3 = [1, 2]
   \<and> elementsOf (snd (getSorted 0 longThenShort)) 3 = elementsOf (snd (getSorted 0 shortThenLong)) 3"
proof -
  have a: "getSorted 0 shortThenLong = (Inr 3, snd (getSorted 0 shortThenLong))"
  proof -
    have "fst (getSorted 0 shortThenLong) = Inr 3"
      by (simp add: shortThenLong_def twoNotes_def store_eval)
    then show ?thesis by (metis prod.collapse)
  qed
  have b: "getSorted 0 longThenShort = (Inr 3, snd (getSorted 0 longThenShort))"
  proof -
    have "fst (getSorted 0 longThenShort) = Inr 3"
      by (simp add: longThenShort_def twoNotes_def store_eval)
    then show ?thesis by (metis prod.collapse)
  qed
  have e1: "elementsOf shortThenLong 0 = [2, Suc 0]"
    by (simp add: shortThenLong_def twoNotes_def store_eval)
  have e2: "elementsOf longThenShort 0 = [Suc 0, 2]"
    by (simp add: longThenShort_def twoNotes_def store_eval)
  have k1: "sortKey shortThenLong 0 (Suc 0) = (0, 0)" "sortKey shortThenLong 0 2 = (1, 0)"
    by (simp_all add: sortKey_def shortThenLong_def twoNotes_def store_eval)
  have k2: "sortKey longThenShort 0 (Suc 0) = (0, 0)" "sortKey longThenShort 0 2 = (1, 0)"
    by (simp_all add: sortKey_def longThenShort_def twoNotes_def store_eval)
  note t = getSorted_order [OF a]
  have s: "elementsOf (snd (getSorted 0 shortThenLong)) 3
          = sort_key (sortKey shortThenLong 0) (elementsOf shortThenLong 0)"
    using t by (rule conjunct1)
  have s': "elementsOf (snd (getSorted 0 shortThenLong)) 3 = [Suc 0, 2]"
    unfolding s e1 by (simp add: k1)
  have r: "getSorted 0 longThenShort = (Inr 3, snd (getSorted 0 longThenShort))
           \<and> mset (elementsOf longThenShort 0) = mset (elementsOf shortThenLong 0)
           \<and> (\<forall>x \<in> set (elementsOf shortThenLong 0).
                 sortKey longThenShort 0 x = sortKey shortThenLong 0 x
                 \<and> filter (\<lambda>y. sortKey shortThenLong 0 y = sortKey shortThenLong 0 x) (elementsOf longThenShort 0)
                   = filter (\<lambda>y. sortKey shortThenLong 0 y = sortKey shortThenLong 0 x) (elementsOf shortThenLong 0))
           \<longrightarrow> elementsOf (snd (getSorted 0 longThenShort)) 3 = elementsOf (snd (getSorted 0 shortThenLong)) 3"
    using t [THEN conjunct2, THEN conjunct2, THEN conjunct2] by (elim allE)
  have pre: "mset (elementsOf longThenShort 0) = mset (elementsOf shortThenLong 0)
           \<and> (\<forall>x \<in> set (elementsOf shortThenLong 0).
                 sortKey longThenShort 0 x = sortKey shortThenLong 0 x
                 \<and> filter (\<lambda>y. sortKey shortThenLong 0 y = sortKey shortThenLong 0 x) (elementsOf longThenShort 0)
                   = filter (\<lambda>y. sortKey shortThenLong 0 y = sortKey shortThenLong 0 x) (elementsOf shortThenLong 0))"
    unfolding e1 e2 by (simp add: k1 k2)
  have "elementsOf (snd (getSorted 0 longThenShort)) 3 = elementsOf (snd (getSorted 0 shortThenLong)) 3"
    by (rule mp [OF r]) (rule conjI [OF b pre])
  with a b e1 e2 s' show ?thesis by simp
qed

text \<open>
  C3: \<^verbatim>\<open>sorted\<close> returns a new Container and leaves the source unchanged, and the two do
  not share their element list. The code breaks this: \<^verbatim>\<open>post = self.elements\<close> is the
  list object of the source itself, \<^verbatim>\<open>post.sort\<close> reorders it in place and the new
  stream is given the same list object. In the store \<open>shortThenLong\<close> the source (object 0)
  lists its elements as 2, 1 before the call and as 1, 2 after it, and the new stream
  (object 3) holds the same list object as the source.
\<close>

theorem sorted_mutates_source:
  "elementsOf shortThenLong 0 = [2, 1]
   \<and> fst (getSorted 0 shortThenLong) = Inr 3
   \<and> elementsOf (snd (getSorted 0 shortThenLong)) 0 = [1, 2]
   \<and> elementsRef (objects (snd (getSorted 0 shortThenLong)) 3)
       = elementsRef (objects (snd (getSorted 0 shortThenLong)) 0)"
  by (simp add: shortThenLong_def twoNotes_def store_eval)

text \<open>
  C4 (as stated): after \<^verbatim>\<open>insert(o, x)\<close> into a sorted Container \<^verbatim>\<open>isSorted\<close> stays true
  iff \<open>o\<close> is at least \<^verbatim>\<open>highestOffset\<close>. The code compares with \<^verbatim>\<open>highestTime\<close>: in
  \<open>oneLong\<close> the stream is sorted and its \<^verbatim>\<open>highestOffset\<close> is 0, yet inserting at
  offset 5 clears \<^verbatim>\<open>isSorted\<close>, because the note at offset 0 ends at 10.
\<close>

theorem insert_highestOffset_counterexample:
  "isSorted (objects oneLong 0)
   \<and> fst (getHighestOffset 0 oneLong) = Inr 0
   \<and> fst (insert 2 5 2 0 oneLong) = Inr ()
   \<and> \<not> (isSorted (objects (snd (insert 2 5 2 0 oneLong)) 0) \<longleftrightarrow> (5::rat) \<ge> 0)"
  by (simp add: oneLong_def twoNotes_def store_eval)

text \<open>
  C4 (amended): for a Container with \<^verbatim>\<open>isSorted\<close> true, an \<^verbatim>\<open>insert(o, x)\<close> that returns
  leaves \<^verbatim>\<open>isSorted\<close> true iff \<open>o\<close> is at least the value of \<^verbatim>\<open>highestTime\<close> that insert
  reads once the site of \<open>x\<close> is registered; it registers the site of \<open>x\<close> at the
  Container with offset \<open>o\<close>, appends \<open>x\<close> to the element list and empties the cache.
\<close>

theorem insert_isSorted:
  assumes sorted: "isSorted (objects h self)"
    and ins: "insert depth offset item self h = (Inr u, h')"
  shows "\<exists>t h1. getHighestTime depth self
                   (setParent item (Some self) (locations_add offset (Some self) item h))
                 = (Inr t, h1)
          \<and> (isSorted (objects h' self) \<longleftrightarrow> t \<le> offset)
          \<and> getOffsetBySite item (Some self) h' = Inr offset
          \<and> elementsOf h' self = elementsOf h self @ [item]
          \<and> cache (objects h' self) = defHash"
proof -
  let ?h2 = "setParent item (Some self) (locations_add offset (Some self) item h)"
  have sorted2: "isSorted (objects ?h2 self)"
    using sorted by (auto simp: setParent_def locations_add_def updObj_def)
  obtain r h1 where ht: "getHighestTime depth self ?h2 = (r, h1)"
    by (cases "getHighestTime depth self ?h2") auto
  from ins sorted2 ht obtain t where r: "r = Inr t"
    by (cases r) (auto simp: insert_def storeSorted_def)
  have fr: "sameExceptCaches ?h2 h1"
    using framedD [OF getHighestTime_framed ht] .
  have h': "h' = updObj self (\<lambda>ob. ob\<lparr>isSorted := t \<le> offset\<rparr>)
             (elementsChanged self (list_append (elementsRef (objects h1 self)) item h1))"
    using ins sorted2 ht r by (simp add: insert_def storeSorted_def)
  have er: "elementsRef (objects h1 self) = elementsRef (objects h self)"
    using sameExceptCaches_elementsRef [OF fr]
    by (simp add: setParent_def locations_add_def updObj_def)
  have pl: "pylists h1 = pylists h"
    using fr by (simp add: sameExceptCaches_def setParent_def locations_add_def updObj_def)
  have loc: "locations (objects h1 item) = locations (objects h item)"
    using sameExceptCaches_locations [OF fr]
    by (simp add: setParent_def locations_add_def updObj_def)
  have st: "sites h1 = (sites h)(locations (objects h item) :=
            (sites h (locations (objects h item)))(Some self \<mapsto> offset))"
    using fr by (simp add: sameExceptCaches_def setParent_def locations_add_def updObj_def)
  have 1: "isSorted (objects h' self) \<longleftrightarrow> t \<le> offset"
    by (simp add: h' updObj_def)
  have 2: "getOffsetBySite item (Some self) h' = Inr offset"
    using loc st
    by (auto simp: h' getOffsetBySite_def updObj_def elementsChanged_def list_append_def)
  have 3: "elementsOf h' self = elementsOf h self @ [item]"
    using er pl
    by (auto simp: h' elementsOf_def updObj_def elementsChanged_def list_append_def)
  have 4: "cache (objects h' self) = defHash"
    by (simp add: h' updObj_def elementsChanged_def)
  from ht r 1 2 3 4 show ?thesis by blast
qed

theorem insert_isSorted_witness:
  "isSorted (objects oneLong 0)
   \<and> insert 2 5 2 0 oneLong = (Inr (), snd (insert 2 5 2 0 oneLong))
   \<and> fst (getHighestTime 2 0 (setParent 2 (Some 0) (locations_add 5 (Some 0) 2 oneLong))) = Inr 10
   \<and> \<not> isSorted (objects (snd (insert 2 5 2 0 oneLong)) 0)
   \<and> elementsOf (snd (insert 2 5 2 0 oneLong)) 0 = [1, 2]"
proof -
  have a: "isSorted (objects oneLong 0)"
    by (simp add: oneLong_def twoNotes_def store_eval)
  have b: "fst (insert 2 5 2 0 oneLong) = Inr ()"
    by (simp add: oneLong_def twoNotes_def store_eval)
  then have c: "insert 2 5 2 0 oneLong = (Inr (), snd (insert 2 5 2 0 oneLong))"
    by (metis prod.collapse)
  have d: "fst (getHighestTime 2 0 (setParent 2 (Some 0) (locations_add 5 (Some 0) 2 oneLong))) = Inr 10"
    by (simp add: oneLong_def twoNotes_def store_eval)
  have e: "elementsOf oneLong 0 = [1]"
    by (simp add: oneLong_def twoNotes_def store_eval)
  from insert_isSorted [OF a c] a c d e show ?thesis by auto
qed

section \<open>Claims about makeMeasures\<close>

text \<open>
  C6: for a source of \<open>N > 0\<close> elements of duration 1 placed back to back from offset 0
  (the element \<open>i\<close> at offset \<open>i\<close>) under a single meter of bar length 4,
  \<^verbatim>\<open>makeMeasures\<close> returns \<open>ceil(N/4)\<close> measures, here \<open>(N + 3) div 4\<close>. Measure \<open>k\<close>
  starts at offset \<open>4 * k\<close> and has the number \<open>k + 1\<close>; the first measure holds the time
  signature (and the clef), the others inherit it, so every measure spans
  \<open>[4 * k, 4 * k + 4)\<close>. The elements of measure \<open>k\<close> are exactly the source elements
  that start in this span, in their order, each at its offset minus \<open>4 * k\<close>; so the
  element \<open>i\<close> lies in measure \<open>i div 4\<close> at offset \<open>i mod 4\<close>. \<open>srcHighestTime\<close> is what
  the source's \<^verbatim>\<open>highestTime\<close> returns; for this source the end of the last element is
  \<open>N\<close>, and the consistency check of \<^verbatim>\<open>makeMeasures\<close> is taken to accept it.
\<close>

theorem makeMeasures_four_four:
  assumes N: "0 < length es"
    and dur: "\<forall>e \<in> set es. duration e = Some 1"
    and bar: "barDuration ts = 4"
    and ae: "almostEquals (of_nat (length es)) srcHighestTime"
  shows "\<exists>post.
     makeMeasures almostEquals [(0, ts)] clefObj None
       (zip (map of_nat [0 ..< length es]) es) srcHighestTime = Some (Inr post)
     \<and> length post = (length es + 3) div 4
     \<and> (\<forall>k < length post.
           fst (post ! k) = of_nat (4 * k)
           \<and> measureNumber (snd (post ! k)) = k + 1
           \<and> getTimeSignature (snd (post ! k)) = (if k = 0 then Some ts else None)
           \<and> contents (snd (post ! k))
               = (if k = 0 then [(0, TS ts), (0, CL clefObj)] else [])
                 @ map (\<lambda>i. (of_nat (i - 4 * k), EL (es ! i)))
                     [4 * k ..< min (4 * k + 4) (length es)])
     \<and> (\<forall>i < length es.
           i div 4 < length post
           \<and> (of_nat (i mod 4), EL (es ! i)) \<in> set (contents (snd (post ! (i div 4)))))"
proof -
  let ?N = "length es"
  let ?K = "(?N + 3) div 4"
  let ?post = "bars ts clefObj es ?N ?K"
  have run: "makeMeasures almostEquals [(0, ts)] clefObj None
       (zip (map of_nat [0 ..< ?N]) es) srcHighestTime = Some (Inr ?post)"
    using N dur bar ae by (rule makeMeasures_bars)
  have len: "length ?post = ?K" by (simp add: bars_def)
  have each: "fst (?post ! k) = of_nat (4 * k)
           \<and> measureNumber (snd (?post ! k)) = k + 1
           \<and> getTimeSignature (snd (?post ! k)) = (if k = 0 then Some ts else None)
           \<and> contents (snd (?post ! k))
               = (if k = 0 then [(0, TS ts), (0, CL clefObj)] else [])
                 @ map (\<lambda>i. (of_nat (i - 4 * k), EL (es ! i)))
                     [4 * k ..< min (4 * k + 4) ?N]"
    if "k < length ?post" for k
  proof -
    from that have k: "k < ?K" by (simp add: bars_def)
    then have nth: "?post ! k = (of_nat (4 * k), barMeasure ts clefObj es ?N k)"
      by (simp add: bars_def del: of_nat_mult)
    show ?thesis
      unfolding nth
      by (simp add: getTimeSignature_barMeasure del: of_nat_mult)
         (simp add: barMeasure_def header_def placed_def)
  qed
  have mem: "i div 4 < length ?post
           \<and> (of_nat (i mod 4), EL (es ! i)) \<in> set (contents (snd (?post ! (i div 4))))"
    if "i < ?N" for i
  proof -
    from that have k: "i div 4 < ?K" by arith
    then have nth: "?post ! (i div 4) = (of_nat (4 * (i div 4)), barMeasure ts clefObj es ?N (i div 4))"
      by (simp add: bars_def del: of_nat_mult)
    have r: "i \<in> set [4 * (i div 4) ..< min (4 * (i div 4) + 4) ?N]"
      using that by simp
    have m: "i - 4 * (i div 4) = i mod 4" by arith
    have "(of_nat (i - 4 * (i div 4)), EL (es ! i)) \<in> set (placed es (i div 4) ?N)"
      unfolding placed_def set_map using r by (intro image_eqI [where x = i]) simp_all
    then have "(of_nat (i mod 4), EL (es ! i)) \<in> set (placed es (i div 4) ?N)"
      unfolding m .
    then show ?thesis
      using k unfolding nth by (simp add: len barMeasure_def)
  qed
  from run len each mem show ?thesis by blast
qed

theorem makeMeasures_four_four_witness:
  "\<exists>post.
     makeMeasures (=) [(0, TimeSignatureObject 0 4)] TrebleClef None
       (zip (map of_nat [0 ..< 5]) (replicate 5 (Element Note (Some 1) None 0))) 5
       = Some (Inr post)
     \<and> length post = 2"
proof -
  have N: "0 < length (replicate 5 (Element Note (Some 1) None 0))" by simp
  have dur: "\<forall>e \<in> set (replicate 5 (Element Note (Some 1) None 0)). duration e = Some 1"
    by simp
  have bar: "barDuration (TimeSignatureObject 0 4) = 4" by simp
  have ae: "(of_nat (length (replicate 5 (Element Note (Some 1) None 0))) :: rat) = 5" by simp
  note t = makeMeasures_four_four [where es = "replicate 5 (Element Note (Some 1) None 0)"
      and ts = "TimeSignatureObject 0 4" and almostEquals = "(=)" and srcHighestTime = 5
      and clefObj = TrebleClef]
  from t [OF N dur bar ae]
  obtain post where
    "makeMeasures (=) [(0, TimeSignatureObject 0 4)] TrebleClef None
       (zip (map of_nat [0 ..< length (replicate 5 (Element Note (Some 1) None 0))])
          (replicate 5 (Element Note (Some 1) None 0))) 5 = Some (Inr post)"
    "length post = (length (replicate 5 (Element Note (Some 1) None 0)) + 3) div 4"
    by blast
  then show ?thesis by (intro exI [of _ post]) simp
qed

section \<open>Claims about the overlap test\<close>

text \<open>
  C8 (as stated): the overlap test reports an overlap exactly when
  \<open>max(start_a, start_b) < min(end_a, end_b)\<close>. This fails for a point span (an element
  without duration) lying strictly inside another span: \<^verbatim>\<open>_durSpanOverlap\<close> orders the
  two spans and only compares the start of the second with the end of the first, so the
  point \<open>(2, 2)\<close> is reported as overlapping \<open>(0, 4)\<close>.
\<close>

theorem durSpanOverlap_counterexample:
  "durSpanOverlap (0, 4) (2, 2) False \<noteq>
     (max (fst (0::rat, 4::rat)) (fst (2::rat, 2::rat))
        < min (snd (0::rat, 4::rat)) (snd (2::rat, 2::rat)))"
  by (simp add: durSpanOverlap_unfold)

text \<open>
  C8 (amended): for two spans of positive length the test reports an overlap iff
  \<open>max(starts) < min(ends)\<close>, and with the coincident-boundary flag also when one span
  ends exactly where the other starts. For spans that may be points (start \<open>\<le>\<close> end) the
  test without the flag reports an overlap iff the span that starts later starts strictly
  before the end of the one that starts earlier (for equal starts: before the smaller
  end). The spans \<open>[0,12)\<close> and \<open>[11,14)\<close> overlap; \<open>[0,3)\<close> and \<open>[3,6)\<close> overlap only
  with the flag.
\<close>

theorem durSpanOverlap_spec:
  "(fst a \<le> snd a \<and> fst b \<le> snd b \<longrightarrow>
      (durSpanOverlap a b False \<longleftrightarrow>
         (fst a = fst b \<and> fst a < min (snd a) (snd b))
         \<or> (fst a < fst b \<and> fst b < snd a)
         \<or> (fst b < fst a \<and> fst a < snd b)))
   \<and> (fst a < snd a \<and> fst b < snd b \<longrightarrow>
      (durSpanOverlap a b flag \<longleftrightarrow>
         max (fst a) (fst b) < min (snd a) (snd b)
         \<or> (flag \<and> (snd a = fst b \<or> snd b = fst a))))
   \<and> durSpanOverlap (0, 12) (11, 14) flag
   \<and> (durSpanOverlap (0, 3) (3, 6) flag \<longleftrightarrow> flag)"
  apply (cases a; cases b)
  apply (simp add: durSpanOverlap_unfold less_prod_def less_eq_prod_def)
  apply (intro conjI impI)
  apply (auto simp: min_def max_def)
  done

theorem durSpanOverlap_spec_witness:
  "(fst (0::rat, 4::rat) \<le> snd (0::rat, 4::rat) \<and> fst (3::rat, 5::rat) \<le> snd (3::rat, 5::rat))
   \<and> (fst (0::rat, 4::rat) < snd (0::rat, 4::rat) \<and> fst (3::rat, 5::rat) < snd (3::rat, 5::rat))
   \<and> durSpanOverlap (0, 4) (3, 5) False
   \<and> max (fst (0::rat, 4::rat)) (fst (3::rat, 5::rat))
        < min (snd (0::rat, 4::rat)) (snd (3::rat, 5::rat))"
  using durSpanOverlap_spec [of "(0, 4)" "(3, 5)" False]
  by simp

section \<open>Claims about the layering maps\<close>

text \<open>
  C9: the overlap and simultaneity index lists are symmetric and self-excluded in every
  configuration, also when durationless elements are excluded. The code breaks the
  symmetry in that configuration: with \<^verbatim>\<open>includeDurationless\<close> false the outer loop of
  \<^verbatim>\<open>_findLayering\<close> skips a durationless element \<open>i\<close>, but the inner loop still
  enters a durationless \<open>j\<close> into the lists of the other elements. For the
  flattened and sorted stream of \<open>noteTwoClefsFlat\<close> (a note of length 1 at offset 0, a
  clef at offset 0 and a clef at offset 1/2, at the indices 0, 1 and 2) the note lists
  the clef 1 as simultaneous and the clef 2 as overlapping, while the lists of both
  clefs are empty.
\<close>

theorem findLayering_not_symmetric:
  "fst (findLayering 2 5 False False noteTwoClefsFlat) = Inr ([[1], [], []], [[2], [], []])"
  by (simp add: noteTwoClefsFlat_def noteTwoClefs_def store_eval)

text \<open>
  C10: \<^verbatim>\<open>makeMeasures\<close> on a source without elements returns no measures: \<^verbatim>\<open>offsetMap\<close>
  is empty, and \<^verbatim>\<open>min\<close> of the empty list raises \<^verbatim>\<open>ValueError\<close>, whatever the meter
  stream, the clef, the reference stream and the source's \<^verbatim>\<open>highestTime\<close> are.
\<close>

theorem makeMeasures_empty:
  "makeMeasures almostEquals meterStream clefObj refHighestTime [] srcHighestTime
     = Some (Inl ValueError)"
  by (simp add: makeMeasures_def offsetMapOf_def)

end
